theory Spec2Isabelle
  imports Complex_Main "HOL-Library.Word"
begin

section \<open>JavaScript values\<close>

text \<open>
  A number is a double: NaN, the two infinities, or a finite value, kept as the real number
  it denotes. \<open>+0\<close> and \<open>-0\<close> are both \<open>Finite 0\<close>: the operators the
  socket applies (\<open>===\<close>, \<open>>=\<close>, \<open><=\<close>, \<open>>\<close>, \<open>>>>\<close>, \<open>|\<close>) do not
  tell them apart.
\<close>

datatype jsnumber = NaN | PosInfinity | NegInfinity | Finite real

subsection \<open>Rounding to a double\<close>

text \<open>
  The value of a numeric literal and the result of \<open>*\<close> and \<open>+\<close> are the exact
  values rounded to the nearest double, ties to the even significand (IEEE 754 binary64).
  \<open>round_half_even\<close> rounds to the nearest integer, a tie to the even one.
  \<open>exponent_of x\<close> is the exponent of the binade of \<open>x\<close>, not below that of the
  subnormal numbers; \<open>ulp x\<close> is the distance between neighbouring doubles there (52
  fraction bits). \<open>round_double\<close> is the rounding with the exponent unbounded above, and
  \<open>to_double\<close> takes what reaches \<open>2 ^ 1024\<close> to an infinity.
\<close>

definition round_half_even :: "real \<Rightarrow> int" where
  "round_half_even q =
     (let n = \<lfloor>q\<rfloor> in
      if q - of_int n < 1 / 2 then n
      else if 1 / 2 < q - of_int n then n + 1
      else if even n then n else n + 1)"

definition exponent_of :: "real \<Rightarrow> int" where
  "exponent_of x = max \<lfloor>log 2 \<bar>x\<bar>\<rfloor> (- 1022)"

definition ulp :: "real \<Rightarrow> real" where
  "ulp x = 2 powr of_int (exponent_of x - 52)"

definition round_double :: "real \<Rightarrow> real" where
  "round_double x = (if x = 0 then 0 else of_int (round_half_even (x / ulp x)) * ulp x)"

definition to_double :: "real \<Rightarrow> jsnumber" where
  "to_double x =
     (if 2 ^ 1024 \<le> round_double x then PosInfinity
      else if round_double x \<le> - (2 ^ 1024) then NegInfinity
      else Finite (round_double x))"

text \<open>
  Functions are known by who wrote them: \<open>noop\<close> of TcpSocket.js, or a function of
  the consumer, named by a number.
\<close>

datatype fn = noop | Consumer nat

text \<open>
  The values the socket is given: the primitives, functions, a \<open>Buffer\<close>, a
  \<open>Uint8Array\<close> and an \<open>Array\<close> with their contents, and any other object (a plain
  object, an array-like, another typed array) with its own properties.
\<close>

datatype jsvalue =
    JUndefined
  | JNull
  | JBoolean bool
  | JNumber jsnumber
  | JString string
  | JFunction fn
  | JBuffer "8 word list"
  | JUint8Array "8 word list"
  | JArray "jsvalue list"
  | JObject "(string \<times> jsvalue) list"

text \<open>What \<open>throw\<close> carries. The value a message ends with (\<open>... + port\<close>) is left out.\<close>

datatype js_exn =
    Error string
  | TypeError string
  | RangeError string
  | Unhandled_error jsvalue

subsection \<open>What the socket requires from other code\<close>

text \<open>
  Whether a global \<open>Buffer\<close> exists, \<open>ipRegex({exact: true}).test\<close>,
  \<open>Base64Str.encode\<close>, \<open>buffer.toString('base64')\<close>, \<open>base64.fromByteArray\<close>,
  \<open>base64.toByteArray\<close> and \<open>new Buffer(data, 'base64')\<close>; the last two may throw.
  \<open>object_to_number\<close> is the number an object converts to: the conversion runs the
  object's own \<open>valueOf\<close> and \<open>toString\<close> (for an array, \<open>join\<close>), which is code
  outside the socket and is taken to return.
\<close>

record host =
  Buffer_defined :: bool
  ipRegex_exact_test :: "string \<Rightarrow> bool"
  Base64Str_encode :: "string \<Rightarrow> string"
  Buffer_toString_base64 :: "8 word list \<Rightarrow> string"
  base64_fromByteArray :: "jsvalue \<Rightarrow> string"
  base64_toByteArray :: "jsvalue \<Rightarrow> js_exn + jsvalue"
  Buffer_from_base64 :: "jsvalue \<Rightarrow> js_exn + jsvalue"
  object_to_number :: "jsvalue \<Rightarrow> jsnumber"

fun typeof :: "jsvalue \<Rightarrow> string" where
  "typeof JUndefined = ''undefined''"
| "typeof JNull = ''object''"
| "typeof (JBoolean b) = ''boolean''"
| "typeof (JNumber n) = ''number''"
| "typeof (JString s) = ''string''"
| "typeof (JFunction f) = ''function''"
| "typeof (JBuffer bs) = ''object''"
| "typeof (JUint8Array bs) = ''object''"
| "typeof (JArray vs) = ''object''"
| "typeof (JObject ps) = ''object''"

fun ToBoolean :: "jsvalue \<Rightarrow> bool" where
  "ToBoolean JUndefined = False"
| "ToBoolean JNull = False"
| "ToBoolean (JBoolean b) = b"
| "ToBoolean (JNumber NaN) = False"
| "ToBoolean (JNumber (Finite x)) = (x \<noteq> 0)"
| "ToBoolean (JNumber n) = True"
| "ToBoolean (JString s) = (s \<noteq> [])"
| "ToBoolean v = True"

subsection \<open>Strings to numbers\<close>

text \<open>
  A string is a list of 8-bit code units. \<open>trim\<close> removes white space and line
  terminators at both ends: TAB, LF, VT, FF, CR, SP and NBSP in this range.
\<close>

definition isStrWhiteSpaceChar :: "char \<Rightarrow> bool" where
  "isStrWhiteSpaceChar c =
     (of_char c \<in> {9::nat, 10, 11, 12, 13, 32, 160})"

definition trim :: "string \<Rightarrow> string" where
  "trim s = rev (dropWhile isStrWhiteSpaceChar (rev (dropWhile isStrWhiteSpaceChar s)))"

definition digit_of :: "char \<Rightarrow> nat option" where
  "digit_of c =
     (let n = of_char c :: nat in
      if 48 \<le> n \<and> n \<le> 57 then Some (n - 48)
      else if 97 \<le> n \<and> n \<le> 102 then Some (n - 87)
      else if 65 \<le> n \<and> n \<le> 70 then Some (n - 55)
      else None)"

text \<open>The value of a run of digits in base \<open>b\<close>; \<open>None\<close> on any other character.\<close>

fun radix_value :: "nat \<Rightarrow> nat \<Rightarrow> string \<Rightarrow> nat option" where
  "radix_value b acc [] = Some acc"
| "radix_value b acc (c # cs) =
     (case digit_of c of
        None \<Rightarrow> None
      | Some d \<Rightarrow> if d < b then radix_value b (acc * b + d) cs else None)"

definition digits :: "nat \<Rightarrow> string \<Rightarrow> nat option" where
  "digits b s = (if s = [] then None else radix_value b 0 s)"

definition split_at :: "(char \<Rightarrow> bool) \<Rightarrow> string \<Rightarrow> string \<times> string option" where
  "split_at p s =
     (case dropWhile (\<lambda>c. \<not> p c) s of
        [] \<Rightarrow> (s, None)
      | c # r \<Rightarrow> (takeWhile (\<lambda>c. \<not> p c) s, Some r))"

text \<open>\<open>ExponentPart\<close> without its \<open>e\<close>: an optional sign and decimal digits.\<close>

definition exponent_value :: "string \<Rightarrow> int option" where
  "exponent_value s =
     (case s of
        [] \<Rightarrow> None
      | c # r \<Rightarrow>
          if c = CHR ''-'' then map_option (\<lambda>n. - int n) (digits 10 r)
          else if c = CHR ''+'' then map_option int (digits 10 r)
          else map_option int (digits 10 s))"

text \<open>
  \<open>StrUnsignedDecimalLiteral\<close>: \<open>Infinity\<close>, or digits with an optional fraction
  and exponent, with a digit on at least one side of the point. The number is the
  mathematical value of the literal rounded to a double.
\<close>

definition unsigned_decimal :: "string \<Rightarrow> jsnumber" where
  "unsigned_decimal s =
     (if s = ''Infinity'' then PosInfinity
      else
        let (mant, ex) = split_at (\<lambda>c. c = CHR ''e'' \<or> c = CHR ''E'') s;
            (ip, fp) = split_at (\<lambda>c. c = CHR ''.'') mant;
            fr = (case fp of None \<Rightarrow> [] | Some f \<Rightarrow> f);
            iv = (if ip = [] then Some 0 else radix_value 10 0 ip);
            fv = (if fr = [] then Some 0 else radix_value 10 0 fr);
            ev = (case ex of None \<Rightarrow> Some 0 | Some e \<Rightarrow> exponent_value e)
        in
          if ip = [] \<and> fr = [] then NaN
          else
            (case (iv, fv, ev) of
               (Some i, Some f, Some e) \<Rightarrow>
                 to_double ((real i + real f / 10 ^ length fr) *
                            (if 0 \<le> e then 10 ^ nat e else 1 / 10 ^ nat (- e)))
             | _ \<Rightarrow> NaN))"

fun negate :: "jsnumber \<Rightarrow> jsnumber" where
  "negate NaN = NaN"
| "negate PosInfinity = NegInfinity"
| "negate NegInfinity = PosInfinity"
| "negate (Finite x) = Finite (- x)"

text \<open>
  \<open>StringToNumber\<close>: the trimmed text is empty (0), a binary, octal or hexadecimal
  integer literal without sign, or a decimal literal with an optional sign; anything else
  is NaN.
\<close>

definition prefixed :: "nat \<Rightarrow> string \<Rightarrow> jsnumber" where
  "prefixed b s = (case digits b s of None \<Rightarrow> NaN | Some n \<Rightarrow> to_double (real n))"

definition StringToNumber :: "string \<Rightarrow> jsnumber" where
  "StringToNumber s =
     (case trim s of
        [] \<Rightarrow> Finite 0
      | c # r \<Rightarrow>
          if c = CHR ''0'' \<and> r \<noteq> [] \<and> hd r \<in> {CHR ''x'', CHR ''X''} then prefixed 16 (tl r)
          else if c = CHR ''0'' \<and> r \<noteq> [] \<and> hd r \<in> {CHR ''o'', CHR ''O''} then prefixed 8 (tl r)
          else if c = CHR ''0'' \<and> r \<noteq> [] \<and> hd r \<in> {CHR ''b'', CHR ''B''} then prefixed 2 (tl r)
          else if c = CHR ''-'' then negate (unsigned_decimal r)
          else if c = CHR ''+'' then unsigned_decimal r
          else unsigned_decimal (c # r))"

text \<open>
  \<open>ToNumber\<close>: of a primitive as the language defines it, of an object (a function, a
  \<open>Buffer\<close>, a typed array, an array, any other object) what its own conversion gives.
\<close>

fun primitive_number :: "jsvalue \<Rightarrow> jsnumber option" where
  "primitive_number JUndefined = Some NaN"
| "primitive_number JNull = Some (Finite 0)"
| "primitive_number (JBoolean b) = Some (Finite (if b then 1 else 0))"
| "primitive_number (JNumber n) = Some n"
| "primitive_number (JString s) = Some (StringToNumber s)"
| "primitive_number v = None"

definition ToNumber :: "host \<Rightarrow> jsvalue \<Rightarrow> jsnumber" where
  "ToNumber h v = (case primitive_number v of Some n \<Rightarrow> n | None \<Rightarrow> object_to_number h v)"

subsection \<open>Integer conversions and comparisons\<close>

definition truncate_real :: "real \<Rightarrow> int" where
  "truncate_real x = (if 0 \<le> x then \<lfloor>x\<rfloor> else - \<lfloor>- x\<rfloor>)"

fun ToUint32 :: "jsnumber \<Rightarrow> int" where
  "ToUint32 (Finite x) = truncate_real x mod 2 ^ 32"
| "ToUint32 n = 0"

definition ToInt32 :: "jsnumber \<Rightarrow> int" where
  "ToInt32 n = (let k = ToUint32 n in if 2 ^ 31 \<le> k then k - 2 ^ 32 else k)"

text \<open>\<open>a === b\<close>, \<open>a <= b\<close> on numbers: every comparison with NaN is false.\<close>

fun strict_equals :: "jsnumber \<Rightarrow> jsnumber \<Rightarrow> bool" where
  "strict_equals (Finite x) (Finite y) = (x = y)"
| "strict_equals PosInfinity PosInfinity = True"
| "strict_equals NegInfinity NegInfinity = True"
| "strict_equals a b = False"

fun less_eq_num :: "jsnumber \<Rightarrow> jsnumber \<Rightarrow> bool" where
  "less_eq_num NaN b = False"
| "less_eq_num a NaN = False"
| "less_eq_num NegInfinity b = True"
| "less_eq_num a PosInfinity = True"
| "less_eq_num (Finite x) (Finite y) = (x \<le> y)"
| "less_eq_num a b = False"

fun less_num :: "jsnumber \<Rightarrow> jsnumber \<Rightarrow> bool" where
  "less_num NaN b = False"
| "less_num a NaN = False"
| "less_num (Finite x) (Finite y) = (x < y)"
| "less_num NegInfinity NegInfinity = False"
| "less_num NegInfinity b = True"
| "less_num PosInfinity b = False"
| "less_num (Finite x) PosInfinity = True"
| "less_num (Finite x) NegInfinity = False"

section \<open>Port validation\<close>

text \<open>
  \<open>isLegalPort\<close> of TcpSocket.js:
  \<^verbatim>\<open>
  if (typeof port === 'string' && port.trim() === '') return false;
  return +port === (port >>> 0) && port >= 0 && port <= 0xFFFF;
  \<close>
\<close>

definition isLegalPort :: "host \<Rightarrow> jsvalue \<Rightarrow> bool" where
  "isLegalPort h port =
     (if typeof port = ''string'' \<and> (case port of JString s \<Rightarrow> trim s = [] | _ \<Rightarrow> False)
      then False
      else strict_equals (ToNumber h port) (Finite (real_of_int (ToUint32 (ToNumber h port))))
           \<and> less_eq_num (Finite 0) (ToNumber h port)
           \<and> less_eq_num (ToNumber h port) (Finite 65535))"

section \<open>The socket and its surroundings\<close>

datatype STATE = DISCONNECTED | CONNECTING | CONNECTED

text \<open>
  The fields of a \<open>TcpSocket\<close>; a leading underscore of the source is written \<open>u_\<close>.
  \<open>_destroyed\<close> is undefined until set to true, so it is a flag. \<open>_timeout\<close> holds a
  timer handle (a positive integer or an object, always truthy), \<open>null\<close> or nothing.
  \<open>_subscription\<close> is the handle \<open>DeviceEventEmitter.addListener\<close> returned.
  \<open>u_events\<close> is the state of the inherited \<open>EventEmitter\<close>: event, listener, and
  whether the listener was added by \<open>once\<close>.
\<close>

record TcpSocket =
  u_id :: int
  u_state :: STATE
  readable :: bool
  writable :: bool
  u_destroyed :: bool
  u_timeout :: "nat option"
  u_subscription :: nat
  u_address :: jsvalue
  u_port :: jsvalue
  u_family :: jsvalue
  u_events :: "(string \<times> fn \<times> bool) list"

text \<open>
  Calls the socket makes on the native module \<open>Sockets\<close> and on the device event
  emitter. \<open>Sockets_connect\<close> carries id, host and \<open>Number(port)\<close>;
  \<open>Sockets_write\<close> carries id, the encoded text and the caller's callback (or
  \<open>noop\<close>) that the acknowledgement will call. The callbacks of \<open>Sockets.end\<close> and
  \<open>Sockets.destroy\<close> only log, as \<open>_debug\<close> does everywhere, and are left out.
\<close>

datatype call =
    DeviceEventEmitter_addListener int
  | Subscription_remove nat
  | Sockets_createSocket int
  | Sockets_connect int string int
  | Sockets_write int string jsvalue
  | Sockets_end int
  | Sockets_destroy int

text \<open>What the consumer sees: an \<open>emit\<close> of the socket, and each function called.\<close>

datatype notification = Emitted string "jsvalue list" | Called fn "jsvalue list"

text \<open>
  The state outside the socket: the module's \<open>usedIds\<close> array, the calls made so far
  (oldest first), the subscriptions the device event emitter holds, the timers that are
  armed, and the notifications given so far. Handles are numbered as they are created.
  A timer does not keep its delay: an armed timer may expire at any later step.
\<close>

record env =
  usedIds :: "int list"
  calls :: "call list"
  subscriptions :: "nat list"
  next_subscription :: nat
  timers :: "nat list"
  next_timer :: nat
  notifications :: "notification list"

type_synonym 'a result = "(js_exn + 'a) \<times> TcpSocket \<times> env"

subsection \<open>The event emitter the socket inherits\<close>

text \<open>
  \<open>once\<close> appends a listener that is removed when it has been called. \<open>emit\<close> calls
  the listeners of the event in the order they were added and drops those added by
  \<open>once\<close>; an \<open>error\<close> event without a listener is thrown. A listener is a function
  of the consumer: its call is recorded, and it is taken to return without calling back
  into the socket.
\<close>

definition once :: "TcpSocket \<Rightarrow> string \<Rightarrow> fn \<Rightarrow> TcpSocket" where
  "once self ev listener = self\<lparr>u_events := u_events self @ [(ev, listener, True)]\<rparr>"

definition emit :: "TcpSocket \<Rightarrow> env \<Rightarrow> string \<Rightarrow> jsvalue list \<Rightarrow> bool result" where
  "emit self env ev args =
     (let ls = filter (\<lambda>(e, f, o1). e = ev) (u_events self);
          env1 = env\<lparr>notifications := notifications env @ [Emitted ev args]\<rparr>
      in
        if ev = ''error'' \<and> ls = []
        then (Inl (Unhandled_error (case args of [] \<Rightarrow> JUndefined | a # r \<Rightarrow> a)), self, env1)
        else
          (Inr (ls \<noteq> []),
           self\<lparr>u_events := filter (\<lambda>(e, f, o1). \<not> (e = ev \<and> o1)) (u_events self)\<rparr>,
           env1\<lparr>notifications :=
                  notifications env1 @ map (\<lambda>(e, f, o1). Called f args) ls\<rparr>))"

subsection \<open>Timers of the host\<close>

definition clearTimeout :: "env \<Rightarrow> nat \<Rightarrow> env" where
  "clearTimeout env t = env\<lparr>timers := removeAll t (timers env)\<rparr>"

text \<open>
  The test \<open>if (this._timeout) { clearTimeout(this._timeout); this._timeout = null; }\<close>
  that \<open>setTimeout\<close>, the data event and the acknowledgement of a write share.
\<close>

definition clear_timer :: "TcpSocket \<Rightarrow> env \<Rightarrow> TcpSocket \<times> env" where
  "clear_timer self env =
     (case u_timeout self of
        None \<Rightarrow> (self, env)
      | Some t \<Rightarrow> (self\<lparr>u_timeout := None\<rparr>, clearTimeout env t))"

section \<open>Construction\<close>

text \<open>
  \<open>Math.floor((Math.random() * 1000) + 1)\<close> for a value \<open>r\<close> of \<open>Math.random()\<close>:
  the product and the sum are rounded to a double, \<open>Math.floor\<close> is exact. A value of
  \<open>Math.random()\<close> is a double from 0 up to, not including, 1.
\<close>

definition random_id :: "real \<Rightarrow> int" where
  "random_id r = \<lfloor>round_double (round_double (r * 1000) + 1)\<rfloor>"

definition unit_double :: "real \<Rightarrow> bool" where
  "unit_double r = (0 \<le> r \<and> r < 1 \<and> round_double r = r)"

text \<open>
  The loop of the constructor, \<open>random k\<close> being the k-th value \<open>Math.random()\<close>
  returns:
  \<^verbatim>\<open>
  this._id = Math.floor((Math.random() * 1000) + 1);
  while (usedIds.indexOf(this._id) !== -1) {
    this._id = Math.floor((Math.random() * 1000) + 1);
  }
  \<close>
  The result is the id and the number of values consumed; \<open>None\<close> when the loop does
  not end.
\<close>

partial_function (option) pick_id :: "(nat \<Rightarrow> real) \<Rightarrow> nat \<Rightarrow> int list \<Rightarrow> (int \<times> nat) option" where
  "pick_id random k used =
     (if random_id (random k) \<in> set used then pick_id random (Suc k) used
      else Some (random_id (random k), Suc k))"

text \<open>The constructor's argument \<open>options: ?{ id: ?number }\<close>; ids are integers.\<close>

record socket_options =
  opt_id :: "int option"

text \<open>\<open>options && options.id\<close>: the id when it is given and not 0.\<close>

definition given_id :: "socket_options option \<Rightarrow> int option" where
  "given_id options =
     (case options of
        None \<Rightarrow> None
      | Some opts \<Rightarrow>
          (case opt_id opts of None \<Rightarrow> None | Some i \<Rightarrow> if i = 0 then None else Some i))"

text \<open>The constructor once the id is known.\<close>

definition construct :: "int \<Rightarrow> bool \<Rightarrow> env \<Rightarrow> TcpSocket \<times> env" where
  "construct i nativeSocket env =
     (\<lparr>u_id = i,
       u_state = (if nativeSocket then CONNECTED else DISCONNECTED),
       readable = False, writable = False, u_destroyed = False, u_timeout = None,
       u_subscription = next_subscription env,
       u_address = JUndefined, u_port = JUndefined, u_family = JUndefined,
       u_events = []\<rparr>,
      env\<lparr>usedIds := usedIds env @ [i],
          subscriptions := subscriptions env @ [next_subscription env],
          next_subscription := Suc (next_subscription env),
          calls := calls env @ [DeviceEventEmitter_addListener i] @
                   (if nativeSocket then [] else [Sockets_createSocket i])\<rparr>)"

definition TcpSocket_new ::
  "(nat \<Rightarrow> real) \<Rightarrow> nat \<Rightarrow> env \<Rightarrow> socket_options option \<Rightarrow> (TcpSocket \<times> env \<times> nat) option" where
  "TcpSocket_new random k env options =
     (case given_id options of
        Some i \<Rightarrow> (case construct i True env of (self, env1) \<Rightarrow> Some (self, env1, k))
      | None \<Rightarrow>
          (case pick_id random k (usedIds env) of
             None \<Rightarrow> None
           | Some (i, k1) \<Rightarrow>
               (case construct i False env of (self, env1) \<Rightarrow> Some (self, env1, k1))))"

section \<open>connect\<close>

record connect_options =
  port :: jsvalue
  host :: "string option"
  localAddress :: "string option"
  localPort :: jsvalue

text \<open>
  \<open>TcpSocket.prototype.connect\<close>. The messages are written without their double quotes
  and without the value appended. \<open>port |= port\<close> is \<open>ToInt32\<close>.
\<close>

definition connect ::
  "host \<Rightarrow> TcpSocket \<Rightarrow> env \<Rightarrow> connect_options \<Rightarrow> jsvalue \<Rightarrow> unit result" where
  "connect h self env options callback =
     (if u_state self \<noteq> DISCONNECTED then (Inl (Error ''Socket is already bound''), self, env)
      else
        let self1 = (case callback of JFunction f \<Rightarrow> once self ''connect'' f | _ \<Rightarrow> self);
            host1 = (case host options of
                       None \<Rightarrow> ''localhost''
                     | Some a \<Rightarrow> if a = [] then ''localhost'' else a)
        in
          if (case localAddress options of
                None \<Rightarrow> False
              | Some a \<Rightarrow> a \<noteq> [] \<and> \<not> ipRegex_exact_test h a)
          then (Inl (TypeError ''localAddress option must be a valid IP: ''), self1, env)
          else if ToBoolean (localPort options) \<and> typeof (localPort options) \<noteq> ''number''
          then (Inl (TypeError ''localPort option should be a number: ''), self1, env)
          else if typeof (port options) \<noteq> ''undefined''
                  \<and> typeof (port options) \<noteq> ''number'' \<and> typeof (port options) \<noteq> ''string''
          then (Inl (TypeError ''port option should be a number or string: ''), self1, env)
          else if typeof (port options) \<noteq> ''undefined'' \<and> \<not> isLegalPort h (port options)
          then (Inl (RangeError ''port option should be >= 0 and < 65536: ''), self1, env)
          else
            (Inr (),
             self1\<lparr>u_state := CONNECTING\<rparr>,
             env\<lparr>calls := calls env @
                    [Sockets_connect (u_id self1) host1 (ToInt32 (ToNumber h (port options)))]\<rparr>))"

section \<open>write\<close>

text \<open>\<open>TcpSocket.prototype.write\<close> is \<open>socket_write\<close> and \<open>TcpSocket.prototype.end\<close> is
  \<open>socket_end\<close>: both names are reserved words here.\<close>

text \<open>
  The chain of tests on the payload:
  \<^verbatim>\<open>
  if (typeof buffer === 'string') str = Base64Str.encode(buffer);
  else if (typeof Buffer !== 'undefined' && global.Buffer.isBuffer(buffer))
    str = buffer.toString('base64');
  else if (buffer instanceof Uint8Array || Array.isArray(buffer))
    str = base64.fromByteArray(buffer);
  else throw new Error('invalid message format');
  \<close>
  A \<open>Buffer\<close> is an instance of \<open>Uint8Array\<close>: where the global \<open>Buffer\<close> does not
  exist it reaches the third test and is encoded by \<open>base64.fromByteArray\<close>. The result
  is \<open>None\<close> where the source throws.
\<close>

definition encode :: "host \<Rightarrow> jsvalue \<Rightarrow> string option" where
  "encode h buffer =
     (case buffer of
        JString s \<Rightarrow> Some (Base64Str_encode h s)
      | JBuffer bs \<Rightarrow>
          if Buffer_defined h then Some (Buffer_toString_base64 h bs)
          else Some (base64_fromByteArray h buffer)
      | JUint8Array bs \<Rightarrow> Some (base64_fromByteArray h buffer)
      | JArray vs \<Rightarrow> Some (base64_fromByteArray h buffer)
      | _ \<Rightarrow> None)"

definition socket_write :: "host \<Rightarrow> TcpSocket \<Rightarrow> env \<Rightarrow> jsvalue \<Rightarrow> jsvalue \<Rightarrow> bool result" where
  "socket_write h self env buffer callback =
     (if u_state self = DISCONNECTED then (Inl (Error ''Socket is not connected.''), self, env)
      else
        let cb = (if ToBoolean callback then callback else JFunction noop) in
          case encode h buffer of
            None \<Rightarrow> (Inl (Error ''invalid message format''), self, env)
          | Some str \<Rightarrow>
              (Inr True, self, env\<lparr>calls := calls env @ [Sockets_write (u_id self) str cb]\<rparr>))"

text \<open>\<open>normalizeError\<close>; \<open>new Error(err)\<close> is an object with the message.\<close>

definition normalizeError :: "jsvalue \<Rightarrow> jsvalue" where
  "normalizeError err =
     (if ToBoolean err
      then (if typeof err = ''string'' then JObject [(''message'', err)] else err)
      else JUndefined)"

text \<open>Calling \<open>f(args)\<close>: a value that is not a function cannot be called.\<close>

definition call_function :: "jsvalue \<Rightarrow> jsvalue list \<Rightarrow> TcpSocket \<Rightarrow> env \<Rightarrow> unit result" where
  "call_function f args self env =
     (case f of
        JFunction g \<Rightarrow>
          (Inr (), self, env\<lparr>notifications := notifications env @ [Called g args]\<rparr>)
      | _ \<Rightarrow> (Inl (TypeError ''cb is not a function''), self, env))"

text \<open>
  The function \<open>socket_write\<close> hands to the native module, run when the native side
  acknowledges the command with \<open>err\<close>; \<open>cb\<close> is the callback the call carried.
\<close>

definition write_ack :: "TcpSocket \<Rightarrow> env \<Rightarrow> jsvalue \<Rightarrow> jsvalue \<Rightarrow> unit result" where
  "write_ack self env cb err =
     (case clear_timer self env of
        (self1, env1) \<Rightarrow>
          if ToBoolean (normalizeError err)
          then call_function cb [normalizeError err] self1 env1
          else call_function cb [] self1 env1)"

section \<open>end and destroy\<close>

definition destroy :: "TcpSocket \<Rightarrow> env \<Rightarrow> TcpSocket \<times> env" where
  "destroy self env =
     (if \<not> u_destroyed self
      then (self\<lparr>u_destroyed := True\<rparr>,
            env\<lparr>subscriptions := removeAll (u_subscription self) (subscriptions env),
                calls := calls env @
                  [Subscription_remove (u_subscription self), Sockets_destroy (u_id self)]\<rparr>)
      else (self, env))"

text \<open>\<open>TcpSocket.prototype.end\<close>; an exception of \<open>socket_write\<close> leaves it at once.\<close>

definition socket_end :: "host \<Rightarrow> TcpSocket \<Rightarrow> env \<Rightarrow> jsvalue \<Rightarrow> jsvalue \<Rightarrow> unit result" where
  "socket_end h self env data1 encoding =
     (if u_destroyed self then (Inr (), self, env)
      else
        case (if ToBoolean data1 then socket_write h self env data1 encoding else (Inr True, self, env)) of
          (Inl e, self1, env1) \<Rightarrow> (Inl e, self1, env1)
        | (Inr r, self1, env1) \<Rightarrow>
            (Inr (),
             self1\<lparr>u_destroyed := True\<rparr>,
             env1\<lparr>subscriptions := removeAll (u_subscription self1) (subscriptions env1),
                 calls := calls env1 @
                   [Subscription_remove (u_subscription self1), Sockets_end (u_id self1)]\<rparr>))"

section \<open>setTimeout\<close>

text \<open>The host's \<open>setTimeout\<close>: a new handle, armed.\<close>

definition arm :: "TcpSocket \<Rightarrow> env \<Rightarrow> TcpSocket \<times> env" where
  "arm self env =
     (self\<lparr>u_timeout := Some (next_timer env)\<rparr>,
      env\<lparr>timers := timers env @ [next_timer env], next_timer := Suc (next_timer env)\<rparr>)"

text \<open>
  \<open>TcpSocket.prototype.setTimeout\<close>. \<open>this.once\<close> of the emitter refuses a listener
  that is not a function.
\<close>

definition setTimeout :: "TcpSocket \<Rightarrow> env \<Rightarrow> jsnumber \<Rightarrow> jsvalue \<Rightarrow> unit result" where
  "setTimeout self env msecs callback =
     (case clear_timer self env of
        (self1, env1) \<Rightarrow>
          if less_num (Finite 0) msecs then
            (if ToBoolean callback then
               (case callback of
                  JFunction f \<Rightarrow>
                    (case arm (once self1 ''timeout'' f) env1 of (self2, env2) \<Rightarrow> (Inr (), self2, env2))
                | _ \<Rightarrow> (Inl (TypeError ''listener must be a function''), self1, env1))
             else (case arm self1 env1 of (self2, env2) \<Rightarrow> (Inr (), self2, env2)))
          else (Inr (), self1, env1))"

text \<open>
  The function the timer runs:
  \<^verbatim>\<open>self.emit('timeout'); self._timeout = null; self.destroy();\<close>
\<close>

definition timeout_expired :: "TcpSocket \<Rightarrow> env \<Rightarrow> unit result" where
  "timeout_expired self env =
     (case emit self env ''timeout'' [] of
        (Inl e, self1, env1) \<Rightarrow> (Inl e, self1, env1)
      | (Inr r, self1, env1) \<Rightarrow>
          (case destroy (self1\<lparr>u_timeout := None\<rparr>) env1 of
             (self2, env2) \<Rightarrow> (Inr (), self2, env2)))"

text \<open>The host lets timer \<open>t\<close> expire: nothing happens unless it is armed.\<close>

definition timer_expires :: "nat \<Rightarrow> TcpSocket \<Rightarrow> env \<Rightarrow> unit result" where
  "timer_expires t self env =
     (if t \<in> set (timers env) then timeout_expired self (clearTimeout env t)
      else (Inr (), self, env))"

section \<open>Events from the native side\<close>

record event_info =
  event :: string
  data :: jsvalue

text \<open>Reading a property: of \<open>undefined\<close> and \<open>null\<close> it throws.\<close>

definition get_prop :: "jsvalue \<Rightarrow> string \<Rightarrow> js_exn + jsvalue" where
  "get_prop v name =
     (case v of
        JUndefined \<Rightarrow> Inl (TypeError ''Cannot read property of undefined'')
      | JNull \<Rightarrow> Inl (TypeError ''Cannot read property of null'')
      | JObject ps \<Rightarrow> Inr (case map_of ps name of None \<Rightarrow> JUndefined | Some x \<Rightarrow> x)
      | _ \<Rightarrow> Inr JUndefined)"

text \<open>\<open>TcpSocket.prototype._onEvent\<close>.\<close>

definition onEvent :: "host \<Rightarrow> TcpSocket \<Rightarrow> env \<Rightarrow> event_info \<Rightarrow> bool result" where
  "onEvent h self env info =
     (if event info = ''connect'' then
        (let self1 = self\<lparr>writable := True, readable := True, u_state := CONNECTED\<rparr> in
           case (get_prop (data info) ''address'', get_prop (data info) ''port'',
                 get_prop (data info) ''family'') of
             (Inr a, Inr p, Inr f) \<Rightarrow>
               emit (self1\<lparr>u_address := a, u_port := JNumber (ToNumber h p), u_family := f\<rparr>)
                 env ''connect'' [data info]
           | (Inl e, _, _) \<Rightarrow> (Inl e, self1, env)
           | (_, Inl e, _) \<Rightarrow> (Inl e, self1, env)
           | (_, _, Inl e) \<Rightarrow> (Inl e, self1, env))
      else if event info = ''data'' then
        (case clear_timer self env of
           (self1, env1) \<Rightarrow>
             (case (if \<not> Buffer_defined h then base64_toByteArray h (data info)
                    else Buffer_from_base64 h (data info)) of
                Inl e \<Rightarrow> (Inl e, self1, env1)
              | Inr d \<Rightarrow> emit self1 env1 ''data'' [d]))
      else if event info = ''close'' then
        emit (self\<lparr>u_state := DISCONNECTED\<rparr>) env ''close'' [data info]
      else emit self env (event info) [data info])"

text \<open>
  The device event emitter delivers an event of the socket's topic to \<open>_onEvent\<close> while
  the subscription is held.
\<close>

definition deliver :: "host \<Rightarrow> TcpSocket \<Rightarrow> env \<Rightarrow> event_info \<Rightarrow> bool result" where
  "deliver h self env info =
     (if u_subscription self \<in> set (subscriptions env) then onEvent h self env info
      else (Inr False, self, env))"

section \<open>Histories\<close>

text \<open>
  Everything that can happen to a socket once it is constructed: a call of one of its
  methods, an event delivered, a timer of the host expiring, the acknowledgement of a command. An
  exception ends the call that raised it; what the call did before stays done.
\<close>

datatype action =
    Connect connect_options jsvalue
  | Write jsvalue jsvalue
  | End jsvalue jsvalue
  | Destroy
  | SetTimeout jsnumber jsvalue
  | Deliver event_info
  | TimerExpires nat
  | WriteAck jsvalue jsvalue

fun step :: "host \<Rightarrow> action \<Rightarrow> TcpSocket \<times> env \<Rightarrow> TcpSocket \<times> env" where
  "step h (Connect options callback) (self, env) = snd (connect h self env options callback)"
| "step h (Write buffer callback) (self, env) = snd (socket_write h self env buffer callback)"
| "step h (End data1 encoding) (self, env) = snd (socket_end h self env data1 encoding)"
| "step h Destroy (self, env) = destroy self env"
| "step h (SetTimeout msecs callback) (self, env) = snd (setTimeout self env msecs callback)"
| "step h (Deliver info) (self, env) = snd (deliver h self env info)"
| "step h (TimerExpires t) (self, env) = snd (timer_expires t self env)"
| "step h (WriteAck cb err) (self, env) = snd (write_ack self env cb err)"

fun run :: "host \<Rightarrow> action list \<Rightarrow> TcpSocket \<times> env \<Rightarrow> TcpSocket \<times> env" where
  "run h [] c = c"
| "run h (a # as) c = run h as (step h a c)"

section \<open>A host and a module state to run the socket in\<close>

text \<open>The module as loaded: \<open>var usedIds = []\<close>, nothing called, nothing armed.\<close>

definition initial_env :: env where
  "initial_env =
     \<lparr>usedIds = [], calls = [], subscriptions = [], next_subscription = 0,
      timers = [], next_timer = 1, notifications = []\<rparr>"

text \<open>
  One host among those the theorems range over, for running the socket on given calls:
  a global \<open>Buffer\<close>, base64 as the codec of every payload, an address test that
  knows dotted IPv4 addresses only, and objects of which an array or \<open>Uint8Array\<close> that
  is empty or holds one number, one string, \<open>null\<close> or \<open>undefined\<close> converts to a
  number as \<open>join\<close> has it, and every other one to NaN.
\<close>

definition base64_chars :: string where
  "base64_chars = ''ABCDEFGHIJKLMNOPQRSTUVWXYZabcdefghijklmnopqrstuvwxyz0123456789+/''"

fun base64_of :: "nat list \<Rightarrow> string" where
  "base64_of (a # b # c # r) =
     [base64_chars ! (a div 4), base64_chars ! (a mod 4 * 16 + b div 16),
      base64_chars ! (b mod 16 * 4 + c div 64), base64_chars ! (c mod 64)] @ base64_of r"
| "base64_of [a, b] =
     [base64_chars ! (a div 4), base64_chars ! (a mod 4 * 16 + b div 16),
      base64_chars ! (b mod 16 * 4), CHR ''='']"
| "base64_of [a] =
     [base64_chars ! (a div 4), base64_chars ! (a mod 4 * 16), CHR ''='', CHR ''='']"
| "base64_of [] = []"

definition sextet :: "char \<Rightarrow> nat option" where
  "sextet c =
     (let n = of_char c :: nat in
      if 65 \<le> n \<and> n \<le> 90 then Some (n - 65)
      else if 97 \<le> n \<and> n \<le> 122 then Some (n - 71)
      else if 48 \<le> n \<and> n \<le> 57 then Some (n + 4)
      else if n = 43 then Some 62
      else if n = 47 then Some 63
      else None)"

fun sextets :: "string \<Rightarrow> nat list option" where
  "sextets [] = Some []"
| "sextets (c # cs) =
     (case (sextet c, sextets cs) of (Some x, Some xs) \<Rightarrow> Some (x # xs) | _ \<Rightarrow> None)"

fun octets :: "nat list \<Rightarrow> nat list" where
  "octets (a # b # c # d # r) =
     [a * 4 + b div 16, b mod 16 * 16 + c div 4, c mod 4 * 64 + d] @ octets r"
| "octets [a, b, c] = [a * 4 + b div 16, b mod 16 * 16 + c div 4]"
| "octets [a, b] = [a * 4 + b div 16]"
| "octets r = []"

definition base64_bytes :: "string \<Rightarrow> 8 word list option" where
  "base64_bytes s =
     map_option (\<lambda>xs. map of_nat (octets xs)) (sextets (takeWhile (\<lambda>c. c \<noteq> CHR ''='') s))"

fun dotted :: "string \<Rightarrow> string \<Rightarrow> string list" where
  "dotted acc [] = [rev acc]"
| "dotted acc (c # cs) = (if c = CHR ''.'' then rev acc # dotted [] cs else dotted (c # acc) cs)"

definition ipv4_octet :: "string \<Rightarrow> bool" where
  "ipv4_octet s =
     (case digits 10 s of
        None \<Rightarrow> False
      | Some n \<Rightarrow> n \<le> 255 \<and> length s \<le> 3 \<and> (length s = 1 \<or> hd s \<noteq> CHR ''0''))"

definition ipv4 :: "string \<Rightarrow> bool" where
  "ipv4 s = (length (dotted [] s) = 4 \<and> list_all ipv4_octet (dotted [] s))"

definition sample_object_to_number :: "jsvalue \<Rightarrow> jsnumber" where
  "sample_object_to_number v =
     (case v of
        JArray [] \<Rightarrow> Finite 0
      | JArray [JUndefined] \<Rightarrow> Finite 0
      | JArray [JNull] \<Rightarrow> Finite 0
      | JArray [JNumber n] \<Rightarrow> n
      | JArray [JString s] \<Rightarrow> StringToNumber s
      | JUint8Array [] \<Rightarrow> Finite 0
      | JUint8Array [b] \<Rightarrow> Finite (real (unat b))
      | _ \<Rightarrow> NaN)"

definition sample_number :: "jsvalue \<Rightarrow> jsnumber" where
  "sample_number v =
     (case primitive_number v of Some n \<Rightarrow> n | None \<Rightarrow> sample_object_to_number v)"

definition sample_host :: host where
  "sample_host =
     \<lparr>Buffer_defined = True,
      ipRegex_exact_test = ipv4,
      Base64Str_encode = (\<lambda>s. base64_of (map of_char s)),
      Buffer_toString_base64 = (\<lambda>bs. base64_of (map unat bs)),
      base64_fromByteArray =
        (\<lambda>v. case v of
               JUint8Array bs \<Rightarrow> base64_of (map unat bs)
             | JBuffer bs \<Rightarrow> base64_of (map unat bs)
             | JArray vs \<Rightarrow> base64_of (map (\<lambda>x. nat (ToUint32 (sample_number x) mod 256)) vs)
             | _ \<Rightarrow> []),
      base64_toByteArray =
        (\<lambda>v. case v of
               JString s \<Rightarrow>
                 (if length s mod 4 \<noteq> 0
                  then Inl (Error ''Invalid string. Length must be a multiple of 4'')
                  else (case base64_bytes s of
                          None \<Rightarrow> Inl (Error ''Invalid string'')
                        | Some bs \<Rightarrow> Inr (JUint8Array bs)))
             | _ \<Rightarrow> Inl (TypeError ''Invalid string'')),
      Buffer_from_base64 =
        (\<lambda>v. case v of
               JString s \<Rightarrow>
                 (case base64_bytes s of None \<Rightarrow> Inr (JBuffer []) | Some bs \<Rightarrow> Inr (JBuffer bs))
             | _ \<Rightarrow> Inl (TypeError ''must start with number, buffer, array or string'')),
      object_to_number = sample_object_to_number\<rparr>"

text \<open>A client socket with id 7 in the module as loaded, and what constructing it left.\<close>

definition socket7 :: TcpSocket where
  "socket7 = fst (construct 7 False initial_env)"

definition env7 :: env where
  "env7 = snd (construct 7 False initial_env)"

text \<open>Options that name a port and nothing else.\<close>

definition to_port :: "jsvalue \<Rightarrow> connect_options" where
  "to_port p = \<lparr>port = p, host = None, localAddress = None, localPort = JUndefined\<rparr>"

text \<open>
  Two sequences of values of \<open>Math.random()\<close>: one half every time (the id 501 every
  time), and one half twice followed by one quarter for ever (501, 501, then 251). And the
  double nearest to 0.009, of which the product with 1000 rounds up to 9.
\<close>

definition always_half :: "nat \<Rightarrow> real" where
  "always_half k = 1 / 2"

definition half_half_quarter :: "nat \<Rightarrow> real" where
  "half_half_quarter k = (if k < 2 then 1 / 2 else 1 / 4)"

definition nine_thousandths :: real where
  "nine_thousandths = 5188146770730811 / 2 ^ 59"

text \<open>The module after every id from 1 to 1000 has been handed out.\<close>

definition exhausted_env :: env where
  "exhausted_env = initial_env\<lparr>usedIds := [1..1000]\<rparr>"

text \<open>Events as the native side sends them: connected, data (base64 of \<open>hi\<close>), closed.\<close>

definition connect_event :: event_info where
  "connect_event =
     \<lparr>event = ''connect'',
      data = JObject [(''address'', JString ''10.0.0.1''), (''port'', JNumber (Finite 80)),
                      (''family'', JString ''IPv4'')]\<rparr>"

definition data_event :: event_info where
  "data_event = \<lparr>event = ''data'', data = JString ''aGk=''\<rparr>"

definition close_event :: event_info where
  "close_event = \<lparr>event = ''close'', data = JUndefined\<rparr>"

text \<open>An array-like object that is not an array: \<open>{0: 104, 1: 105, length: 2}\<close>.\<close>

definition array_like_hi :: jsvalue where
  "array_like_hi =
     JObject [(''0'', JNumber (Finite 104)), (''1'', JNumber (Finite 105)),
              (''length'', JNumber (Finite 2))]"



section \<open>Properties of histories\<close>

text \<open>An action that delivers a \<open>connect\<close> event.\<close>

fun connect_delivery :: "action \<Rightarrow> bool" where
  "connect_delivery (Deliver info) = (event info = ''connect'')"
| "connect_delivery a = False"



section \<open>Properties of the rounding\<close>

lemma round_half_even_int [simp]: "round_half_even (of_int n) = n"
  by (simp add: round_half_even_def)

lemma round_half_even_floor: "\<lfloor>q\<rfloor> \<le> round_half_even q \<and> round_half_even q \<le> \<lfloor>q\<rfloor> + 1"
  by (simp add: round_half_even_def Let_def)

lemma round_half_even_ge: "of_int n \<le> q \<Longrightarrow> n \<le> round_half_even q"
proof -
  assume "of_int n \<le> q"
  then have "n \<le> \<lfloor>q\<rfloor>" by (simp add: le_floor_iff)
  with round_half_even_floor [of q] show ?thesis by linarith
qed

lemma round_half_even_le: "q \<le> of_int n \<Longrightarrow> round_half_even q \<le> n"
proof -
  assume a: "q \<le> of_int n"
  then have f: "\<lfloor>q\<rfloor> \<le> n" by (metis floor_mono floor_of_int)
  show ?thesis
  proof (cases "\<lfloor>q\<rfloor> = n")
    case True
    with a have "q = of_int n" using of_int_floor_le [of q] by simp
    then show ?thesis by simp
  next
    case False
    with f have "\<lfloor>q\<rfloor> + 1 \<le> n" by simp
    with round_half_even_floor [of q] show ?thesis by linarith
  qed
qed

lemma round_half_even_mono: "q \<le> r \<Longrightarrow> round_half_even q \<le> round_half_even r"
proof -
  assume a: "q \<le> r"
  then have f: "\<lfloor>q\<rfloor> \<le> \<lfloor>r\<rfloor>" by (rule floor_mono)
  show ?thesis
  proof (cases "\<lfloor>q\<rfloor> = \<lfloor>r\<rfloor>")
    case True
    with a show ?thesis
      by (auto simp: round_half_even_def Let_def)
  next
    case False
    with f have "\<lfloor>q\<rfloor> + 1 \<le> \<lfloor>r\<rfloor>" by simp
    with round_half_even_floor [of q] round_half_even_floor [of r] show ?thesis by linarith
  qed
qed

lemma ulp_pos: "0 < ulp x"
  by (simp add: ulp_def exponent_of_def)

lemma ulp_binade:
  assumes "2 powr of_int e \<le> \<bar>x\<bar>" and "\<bar>x\<bar> < 2 powr of_int (e + 1)" and "- 1022 \<le> e"
  shows "ulp x = 2 powr of_int (e - 52)"
proof -
  have "(0::real) < 2 powr of_int e" by simp
  with assms(1) have "0 < \<bar>x\<bar>" by linarith
  then have "\<lfloor>log 2 \<bar>x\<bar>\<rfloor> = e"
    using assms floor_log_eq_powr_iff [of "\<bar>x\<bar>" 2 e] by simp
  then show ?thesis using assms by (simp add: ulp_def exponent_of_def)
qed

lemma binade_exists:
  assumes "0 < x"
  shows "2 powr of_int \<lfloor>log 2 x\<rfloor> \<le> x \<and> x < 2 powr of_int (\<lfloor>log 2 x\<rfloor> + 1)"
  using assms floor_log_eq_powr_iff [of x 2 "\<lfloor>log 2 x\<rfloor>"] by simp

lemma round_double_nat:
  assumes "n < 2 ^ 53"
  shows "round_double (real n) = real n"
proof (cases "n = 0")
  case True
  then show ?thesis by (simp add: round_double_def)
next
  case False
  then have pos: "0 < real n" by simp
  define e where "e = \<lfloor>log 2 (real n)\<rfloor>"
  from binade_exists [OF pos] have lo: "2 powr of_int e \<le> real n"
    and hi: "real n < 2 powr of_int (e + 1)"
    by (simp_all add: e_def)
  have e0: "0 \<le> e"
    using False unfolding e_def by (simp add: zero_le_log_cancel_iff)
  have c: "(2::real) powr of_int e < 2 powr of_int 53 \<longleftrightarrow> real_of_int e < real_of_int 53"
    by (rule powr_less_cancel_iff) simp
  have "real n < 2 ^ 53" using assms by (metis of_nat_less_iff of_nat_numeral of_nat_power)
  also have "(2::real) ^ 53 = 2 powr real_of_int 53" by simp
  finally have "(2::real) powr of_int e < 2 powr of_int 53" using lo by linarith
  with c have e52: "e \<le> 52" by linarith
  have u: "ulp (real n) = 2 powr of_int (e - 52)"
    using ulp_binade [of e "real n"] lo hi e0 by simp
  have p: "(2::real) powr of_int (e - 52) = 1 / 2 ^ nat (52 - e)"
    using e52 powr_int [of "2::real" "e - 52"] by (cases "e = 52") auto
  then have "real n / ulp (real n) = of_int (int n * 2 ^ nat (52 - e))"
    by (simp add: u del: of_int_diff)
  then have "round_half_even (real n / ulp (real n)) = int n * 2 ^ nat (52 - e)"
    by (metis round_half_even_int)
  then show ?thesis
    using False p by (simp add: round_double_def u)
qed

lemma round_half_even_minus: "round_half_even (- q) = - round_half_even q"
proof (cases "q = of_int \<lfloor>q\<rfloor>")
  case True
  then have "round_half_even (- of_int \<lfloor>q\<rfloor>) = - round_half_even (of_int \<lfloor>q\<rfloor>)"
    by (metis of_int_minus round_half_even_int)
  with True show ?thesis by simp
next
  case False
  then have fl: "\<lfloor>- q\<rfloor> = - \<lfloor>q\<rfloor> - 1"
    by (metis ceiling_altdef ceiling_def add_diff_cancel_right' diff_minus_eq_add minus_diff_eq
        minus_minus uminus_add_conv_diff)
  have lt: "of_int \<lfloor>q\<rfloor> < q" using False of_int_floor_le [of q] by linarith
  show ?thesis
    unfolding round_half_even_def Let_def fl using lt by auto
qed

lemma exponent_of_upper: "0 < x \<Longrightarrow> x < 2 powr of_int (exponent_of x + 1)"
proof -
  assume pos: "0 < x"
  from binade_exists [OF pos] have "x < 2 powr of_int (\<lfloor>log 2 x\<rfloor> + 1)" by simp
  also have "\<dots> \<le> 2 powr of_int (exponent_of x + 1)"
    using pos by (simp add: exponent_of_def)
  finally show ?thesis .
qed

lemma exponent_of_lower: "0 < x \<Longrightarrow> - 1022 < exponent_of x \<Longrightarrow> 2 powr of_int (exponent_of x) \<le> x"
proof -
  assume pos: "0 < x" and "- 1022 < exponent_of x"
  then have "exponent_of x = \<lfloor>log 2 x\<rfloor>" by (simp add: exponent_of_def max_def split: if_splits)
  with binade_exists [OF pos] show ?thesis by simp
qed

lemma exponent_of_mono: "0 < x \<Longrightarrow> x \<le> y \<Longrightarrow> exponent_of x \<le> exponent_of y"
proof -
  assume a: "0 < x" "x \<le> y"
  then have "log 2 \<bar>x\<bar> \<le> log 2 \<bar>y\<bar>" by simp
  then have "\<lfloor>log 2 \<bar>x\<bar>\<rfloor> \<le> \<lfloor>log 2 \<bar>y\<bar>\<rfloor>" by (rule floor_mono)
  then show ?thesis by (simp add: exponent_of_def)
qed

lemma pow53: "(2::real) powr of_int (k + 1) = of_int (2 ^ 53) * 2 powr of_int (k - 52)"
proof -
  have "(2::real) powr of_int (k + 1) = 2 powr (53 + of_int (k - 52))" by (simp add: algebra_simps)
  also have "\<dots> = 2 powr 53 * 2 powr of_int (k - 52)" by (rule powr_add)
  also have "(2::real) powr 53 = of_int (2 ^ 53)" by simp
  finally show ?thesis .
qed

lemma pow52: "(2::real) powr of_int k = of_int (2 ^ 52) * 2 powr of_int (k - 52)"
proof -
  have "(2::real) powr of_int k = 2 powr (52 + of_int (k - 52))" by simp
  also have "\<dots> = 2 powr 52 * 2 powr of_int (k - 52)" by (rule powr_add)
  also have "(2::real) powr 52 = of_int (2 ^ 52)" by simp
  finally show ?thesis .
qed

lemma round_double_upper:
  assumes "0 < x"
  shows "round_double x \<le> 2 powr of_int (exponent_of x + 1)"
proof -
  have u: "0 < ulp x" by (rule ulp_pos)
  have e: "2 powr of_int (exponent_of x + 1) = of_int (2 ^ 53) * ulp x"
    unfolding ulp_def by (rule pow53)
  have "x < of_int (2 ^ 53) * ulp x"
    using exponent_of_upper [OF assms] by (simp only: e)
  then have "x / ulp x \<le> of_int (2 ^ 53)"
    using u by (simp only: pos_divide_le_eq less_imp_le)
  then have "round_half_even (x / ulp x) \<le> 2 ^ 53"
    by (rule round_half_even_le)
  then have "real_of_int (round_half_even (x / ulp x)) \<le> real_of_int (2 ^ 53)"
    by (simp only: of_int_le_iff)
  then have "of_int (round_half_even (x / ulp x)) * ulp x \<le> of_int (2 ^ 53) * ulp x"
    using u by (rule mult_right_mono [OF _ less_imp_le])
  then show ?thesis using assms by (simp only: e round_double_def) simp
qed

lemma round_double_lower:
  assumes "0 < x" and "2 powr of_int (exponent_of x) \<le> x"
  shows "2 powr of_int (exponent_of x) \<le> round_double x"
proof -
  have u: "0 < ulp x" by (rule ulp_pos)
  have e: "2 powr of_int (exponent_of x) = of_int (2 ^ 52) * ulp x"
    unfolding ulp_def by (rule pow52)
  have "of_int (2 ^ 52) * ulp x \<le> x"
    using assms(2) by (simp only: e)
  then have "of_int (2 ^ 52) \<le> x / ulp x"
    using u by (simp only: pos_le_divide_eq)
  then have "2 ^ 52 \<le> round_half_even (x / ulp x)"
    by (rule round_half_even_ge)
  then have "real_of_int (2 ^ 52) \<le> real_of_int (round_half_even (x / ulp x))"
    by (simp only: of_int_le_iff)
  then have "of_int (2 ^ 52) * ulp x \<le> of_int (round_half_even (x / ulp x)) * ulp x"
    using u by (rule mult_right_mono [OF _ less_imp_le])
  then show ?thesis using assms by (simp only: e round_double_def) simp
qed

lemma round_double_nonneg: "0 \<le> x \<Longrightarrow> 0 \<le> round_double x"
proof -
  assume "0 \<le> x"
  then have "0 \<le> x / ulp x" using ulp_pos [of x] by simp
  then have "0 \<le> round_half_even (x / ulp x)"
    using round_half_even_ge [of 0 "x / ulp x"] by simp
  then show ?thesis using ulp_pos [of x] by (simp add: round_double_def)
qed

lemma round_double_mono_pos:
  assumes "0 < x" and "x \<le> y"
  shows "round_double x \<le> round_double y"
proof (cases "exponent_of x = exponent_of y")
  case True
  then have u: "ulp x = ulp y" by (simp add: ulp_def)
  have "x / ulp y \<le> y / ulp y"
    using assms ulp_pos [of y] by (simp add: divide_right_mono)
  then have "round_half_even (x / ulp y) \<le> round_half_even (y / ulp y)"
    by (rule round_half_even_mono)
  then have "of_int (round_half_even (x / ulp y)) * ulp y
      \<le> of_int (round_half_even (y / ulp y)) * ulp y"
    using ulp_pos [of y] by (simp add: mult_right_mono)
  then show ?thesis using assms by (simp add: round_double_def u)
next
  case False
  with exponent_of_mono [OF assms] have lt: "exponent_of x + 1 \<le> exponent_of y" by simp
  have low: "- 1022 < exponent_of y"
    using lt by (simp add: exponent_of_def)
  have ypos: "0 < y" using assms by linarith
  have "round_double x \<le> 2 powr of_int (exponent_of x + 1)"
    by (rule round_double_upper [OF assms(1)])
  also have "\<dots> \<le> 2 powr of_int (exponent_of y)"
    using lt by simp
  also have "\<dots> \<le> round_double y"
    by (rule round_double_lower [OF ypos exponent_of_lower [OF ypos low]])
  finally show ?thesis .
qed

lemma round_double_minus: "round_double (- x) = - round_double x"
  by (simp add: round_double_def ulp_def exponent_of_def round_half_even_minus)

lemma round_double_mono:
  assumes "x \<le> y"
  shows "round_double x \<le> round_double y"
proof -
  consider "0 < x" | "x \<le> 0" "0 \<le> y" | "y < 0" by linarith
  then show ?thesis
  proof cases
    case 1
    then show ?thesis using assms by (rule round_double_mono_pos)
  next
    case 2
    from 2(1) have "0 \<le> round_double (- x)" by (simp add: round_double_nonneg)
    then have "round_double x \<le> 0" by (simp add: round_double_minus)
    also have "0 \<le> round_double y" using 2(2) by (rule round_double_nonneg)
    finally show ?thesis .
  next
    case 3
    then have "0 < - y" "- y \<le> - x" using assms by simp_all
    then have "round_double (- y) \<le> round_double (- x)" by (rule round_double_mono_pos)
    then show ?thesis by (simp add: round_double_minus)
  qed
qed

lemma round_half_even_near:
  assumes "\<bar>q - of_int k\<bar> < 1 / 2"
  shows "round_half_even q = k"
proof -
  from assms have "of_int k - 1 / 2 < q" "q < of_int k + 1 / 2" by linarith+
  show ?thesis
  proof (cases "of_int k \<le> q")
    case True
    then have "\<lfloor>q\<rfloor> = k" using \<open>q < of_int k + 1 / 2\<close> by (simp add: floor_eq_iff)
    then show ?thesis using \<open>q < of_int k + 1 / 2\<close> by (simp add: round_half_even_def)
  next
    case False
    then have f: "\<lfloor>q\<rfloor> = k - 1" using \<open>of_int k - 1 / 2 < q\<close> by (simp add: floor_eq_iff)
    have "1 / 2 < q - of_int (k - 1)" using \<open>of_int k - 1 / 2 < q\<close> by simp
    then show ?thesis by (simp add: round_half_even_def f)
  qed
qed

lemma round_double_binade:
  assumes "2 powr of_int e \<le> \<bar>x\<bar>" and "\<bar>x\<bar> < 2 powr of_int (e + 1)" and "- 1022 \<le> e"
    and "\<bar>x / 2 powr of_int (e - 52) - of_int k\<bar> < 1 / 2"
  shows "round_double x = of_int k * 2 powr of_int (e - 52)"
proof -
  have u: "ulp x = 2 powr of_int (e - 52)"
    by (rule ulp_binade [OF assms(1-3)])
  have "0 < (2::real) powr of_int e" by simp
  with assms(1) have "0 < \<bar>x\<bar>" by linarith
  then have "x \<noteq> 0" by simp
  then show ?thesis
    by (simp only: round_double_def u round_half_even_near [OF assms(4)] if_False)
qed

lemma round_double_exact:
  assumes "2 ^ 52 \<le> m" and "m < 2 ^ 53" and "- 1022 \<le> e"
  shows "round_double (of_int m * 2 powr of_int (e - 52)) = of_int m * 2 powr of_int (e - 52)"
proof (rule round_double_binade [OF _ _ assms(3)])
  let ?u = "(2::real) powr of_int (e - 52)"
  have u: "0 < ?u" by simp
  have m: "0 \<le> (of_int m :: real)" using assms(1) by (simp add: order_trans [of 0 "2 ^ 52"])
  have a: "\<bar>of_int m * ?u\<bar> = of_int m * ?u" using m by simp
  have "real_of_int (2 ^ 52) \<le> of_int m" using assms(1) by (simp only: of_int_le_iff)
  then have "of_int (2 ^ 52) * ?u \<le> of_int m * ?u" by (rule mult_right_mono) simp
  then show "2 powr of_int e \<le> \<bar>of_int m * ?u\<bar>" by (simp only: a pow52 [of e])
  have "real_of_int m < of_int (2 ^ 53)" using assms(2) by (simp only: of_int_less_iff)
  then have "of_int m * ?u < of_int (2 ^ 53) * ?u" using u by (simp only: mult_less_cancel_right_pos)
  then show "\<bar>of_int m * ?u\<bar> < 2 powr of_int (e + 1)" by (simp only: a pow53 [of e])
  show "\<bar>of_int m * ?u / ?u - of_int m\<bar> < 1 / 2" by simp
qed

lemma round_double_numeral:
  "numeral k < (2::nat) ^ 53 \<Longrightarrow> round_double (numeral k) = numeral k"
  using round_double_nat [of "numeral k"] by simp

lemma round_double_one: "round_double 1 = 1"
  using round_double_nat [of 1] by simp

lemma round_double_half: "round_double (1 / 2) = 1 / 2"
  using round_double_exact [of "2 ^ 52" "- 1"] by (simp add: powr_neg_numeral)

lemma round_double_quarter: "round_double (1 / 4) = 1 / 4"
  using round_double_exact [of "2 ^ 52" "- 2"] by (simp add: powr_neg_numeral)

lemma double_below_one:
  assumes d: "round_double r = r" and pos: "0 < r" and one: "r < 1"
  shows "r \<le> 1 - 1 / 2 ^ 53"
proof -
  let ?u = "ulp r" and ?m = "round_half_even (r / ulp r)"
  let ?p = "(2::real) powr of_int (exponent_of r + 1)"
  have u: "0 < ?u" by (rule ulp_pos)
  have r: "r = of_int ?m * ?u" using d pos by (simp add: round_double_def)
  have "log 2 r < 0" using pos one by simp
  then have "\<lfloor>log 2 r\<rfloor> \<le> - 1" by (simp add: floor_le_iff)
  then have b: "exponent_of r + 1 \<le> 0" using pos by (simp add: exponent_of_def)
  have p: "?p = of_int (2 ^ 53) * ?u"
    unfolding ulp_def by (rule pow53)
  have "of_int ?m * ?u < of_int (2 ^ 53) * ?u"
    using exponent_of_upper [OF pos] r p by simp
  then have "real_of_int ?m < of_int (2 ^ 53)" using u by (simp only: mult_less_cancel_right_pos)
  then have "?m < 2 ^ 53" by (simp only: of_int_less_iff)
  then have "?m \<le> 2 ^ 53 - 1" by simp
  then have "real_of_int ?m \<le> of_int (2 ^ 53 - 1)" by (simp only: of_int_le_iff)
  then have "of_int ?m * ?u \<le> of_int (2 ^ 53 - 1) * ?u" using u by (simp only: mult_le_cancel_right_pos)
  then have le: "r \<le> of_int (2 ^ 53 - 1) * ?u" using r by simp
  have pu: "?u = ?p / 2 ^ 53" using p by simp
  have "of_int (2 ^ 53 - 1) * ?u = ?p * (1 - 1 / 2 ^ 53)"
    by (subst pu) (simp add: field_simps)
  also have "\<dots> \<le> 1 * (1 - 1 / 2 ^ 53)"
  proof (rule mult_right_mono)
    have "?p \<le> 2 powr 0" using b by (simp only: powr_le_cancel_iff)
    then show "?p \<le> 1" by simp
    show "0 \<le> 1 - 1 / (2::real) ^ 53" by simp
  qed
  finally show ?thesis using le by simp
qed

lemma to_double_nat: "n < 2 ^ 53 \<Longrightarrow> to_double (real n) = Finite (real n)"
proof -
  assume n: "n < 2 ^ 53"
  then have "real n < 2 ^ 53" by (metis of_nat_less_iff of_nat_numeral of_nat_power)
  also have "(2::real) ^ 53 < 2 ^ 1024" by (rule power_strict_increasing) simp_all
  finally have "real n < 2 ^ 1024" .
  moreover have "- ((2::real) ^ 1024) < real n"
    by (rule less_le_trans [of _ 0]) simp_all
  ultimately show ?thesis
    by (simp add: to_double_def round_double_nat [OF n])
qed

lemma to_double_numeral:
  "numeral k < (2::nat) ^ 53 \<Longrightarrow> to_double (numeral k) = Finite (numeral k)"
  using to_double_nat [of "numeral k"] by simp

lemma to_double_zero: "to_double 0 = Finite 0"
  using to_double_nat [of 0] by simp

lemma to_double_one: "to_double 1 = Finite 1"
  using to_double_nat [of 1] by simp

lemma round_below_1000: "round_double (1000 - 1000 / 2 ^ 53) = 1000 - 1 / 2 ^ 43"
proof -
  have "round_double (1000 - 1000 / 2 ^ 53) =
          of_int (1000 * 2 ^ 43 - 1) * 2 powr of_int (9 - 52)"
    by (rule round_double_binade) (simp_all add: powr_neg_numeral)
  also have "\<dots> = 1000 - 1 / 2 ^ 43" by (simp add: powr_neg_numeral)
  finally show ?thesis .
qed

lemma round_below_1001: "round_double (1001 - 1 / 2 ^ 43) = 1001 - 1 / 2 ^ 43"
proof -
  have "round_double (of_int (1001 * 2 ^ 43 - 1) * 2 powr of_int (9 - 52)) =
          of_int (1001 * 2 ^ 43 - 1) * 2 powr of_int (9 - 52)"
    by (rule round_double_exact) simp_all
  then show ?thesis by (simp add: powr_neg_numeral)
qed

lemma random_id_range:
  assumes "unit_double r"
  shows "1 \<le> random_id r \<and> random_id r \<le> 1000"
proof
  from assms have r0: "0 \<le> r" and r1: "r < 1" and d: "round_double r = r"
    by (simp_all add: unit_double_def)
  have "0 \<le> round_double (r * 1000)" using r0 by (simp add: round_double_nonneg)
  then have "round_double 1 \<le> round_double (round_double (r * 1000) + 1)"
    by (intro round_double_mono) simp
  then have "1 \<le> round_double (round_double (r * 1000) + 1)"
    by (simp only: round_double_one)
  then show "1 \<le> random_id r" by (simp add: random_id_def le_floor_iff)
  have "r \<le> 1 - 1 / 2 ^ 53"
  proof (cases "r = 0")
    case True
    then show ?thesis by simp
  next
    case False
    with r0 have "0 < r" by simp
    from double_below_one [OF d this r1] show ?thesis .
  qed
  then have "r * 1000 \<le> 1000 - 1000 / 2 ^ 53" by simp
  then have "round_double (r * 1000) \<le> round_double (1000 - 1000 / 2 ^ 53)"
    by (rule round_double_mono)
  then have "round_double (r * 1000) \<le> 1000 - 1 / 2 ^ 43"
    by (simp only: round_below_1000)
  then have "round_double (r * 1000) + 1 \<le> 1001 - 1 / 2 ^ 43"
    by simp
  then have "round_double (round_double (r * 1000) + 1) \<le> round_double (1001 - 1 / 2 ^ 43)"
    by (rule round_double_mono)
  then have "round_double (round_double (r * 1000) + 1) \<le> 1001 - 1 / 2 ^ 43"
    by (simp only: round_below_1001)
  moreover have "1001 - 1 / 2 ^ 43 < (1001::real)" by simp
  ultimately have "round_double (round_double (r * 1000) + 1) < 1001"
    by (rule le_less_trans)
  then have "random_id r < 1001" by (simp add: random_id_def floor_less_iff)
  then show "random_id r \<le> 1000" by simp
qed

lemma unit_double_half: "unit_double (1 / 2)" "unit_double (1 / 4)"
  by (simp_all add: unit_double_def round_double_half round_double_quarter)

lemma random_id_half: "random_id (1 / 2) = 501" "random_id (1 / 4) = 251"
  by (simp_all add: random_id_def round_double_numeral)

lemma random_id_rounds:
  "random_id nine_thousandths = 10"
  "\<lfloor>nine_thousandths * 1000 + 1\<rfloor> = 9"
  "unit_double nine_thousandths"
  unfolding nine_thousandths_def
proof -
  have "round_double (5188146770730811 / 2 ^ 59 * 1000) = of_int (9 * 2 ^ 49) * 2 powr of_int (3 - 52)"
    by (rule round_double_binade) (simp_all add: powr_neg_numeral)
  then have "round_double (5188146770730811 / 2 ^ 59 * 1000) = 9"
    by (simp add: powr_neg_numeral)
  then show "random_id (5188146770730811 / 2 ^ 59) = 10"
    by (simp add: random_id_def round_double_numeral)
  show "\<lfloor>5188146770730811 / 2 ^ 59 * 1000 + (1::real)\<rfloor> = 9"
    by (simp add: floor_eq_iff)
  have "round_double (of_int 5188146770730811 * 2 powr of_int (- 7 - 52)) =
      of_int 5188146770730811 * 2 powr of_int (- 7 - 52)"
    by (rule round_double_exact) simp_all
  then show "unit_double (5188146770730811 / 2 ^ 59)"
    by (simp add: unit_double_def powr_neg_numeral)
qed

lemma round_double_tiny:
  assumes "\<bar>x\<bar> < 2 powr (- 1075)"
  shows "round_double x = 0"
proof (cases "x = 0")
  case True
  then show ?thesis by (simp add: round_double_def)
next
  case False
  then have pos: "0 < \<bar>x\<bar>" by simp
  have "\<bar>x\<bar> < 2 powr (- 1022)"
    by (rule less_trans [OF assms]) simp
  then have "log 2 \<bar>x\<bar> < - 1022" using pos by (simp add: log_less_iff)
  then have "\<lfloor>log 2 \<bar>x\<bar>\<rfloor> \<le> - 1022" by (simp add: floor_le_iff)
  then have e: "exponent_of x = - 1022" by (simp add: exponent_of_def)
  have u: "ulp x = 2 powr (- 1074)" by (simp add: ulp_def e)
  have "\<bar>x\<bar> / 2 powr (- 1074) < 2 powr (- 1075) / 2 powr (- 1074)"
    using assms by (simp add: divide_strict_right_mono)
  also have "2 powr (- 1075) / 2 powr (- 1074) = (2::real) powr (- 1075 - (- 1074))"
    by (rule powr_diff [symmetric])
  also have "\<dots> = 1 / 2" by (simp add: powr_neg_numeral)
  finally have "\<bar>x / ulp x - of_int 0\<bar> < 1 / 2" by (simp add: u)
  then have "round_half_even (x / ulp x) = 0" by (rule round_half_even_near)
  then show ?thesis by (simp add: round_double_def)
qed

lemma to_double_tiny: "\<bar>x\<bar> < 2 powr (- 1075) \<Longrightarrow> to_double x = Finite 0"
  by (simp add: to_double_def round_double_tiny)

lemma to_double_round:
  assumes "round_double x = y" and "\<bar>y\<bar> < 2 ^ 53"
  shows "to_double x = Finite y"
proof -
  have "(2::real) ^ 53 < 2 ^ 1024" by (rule power_strict_increasing) simp_all
  with assms(2) have "\<bar>y\<bar> < 2 ^ 1024" by (rule less_trans)
  then have "\<not> 2 ^ 1024 \<le> y" "\<not> y \<le> - (2 ^ 1024)" by linarith+
  then show ?thesis by (simp only: to_double_def assms(1) if_False)
qed

lemma ToNumber_simps [simp]:
  "ToNumber h JUndefined = NaN"
  "ToNumber h JNull = Finite 0"
  "ToNumber h (JBoolean b) = Finite (if b then 1 else 0)"
  "ToNumber h (JNumber n) = n"
  "ToNumber h (JString s) = StringToNumber s"
  by (simp_all add: ToNumber_def)

section \<open>The operations as explicit results\<close>

lemma clear_timer_eq:
  "clear_timer self env =
     (self\<lparr>u_timeout := None\<rparr>,
      env\<lparr>timers := (case u_timeout self of None \<Rightarrow> timers env
                                          | Some t \<Rightarrow> removeAll t (timers env))\<rparr>)"
  by (simp add: clear_timer_def clearTimeout_def split: option.splits)

lemma filter_once_none:
  "filter (\<lambda>(e, f, o1). e = ev) xs = [] \<Longrightarrow> filter (\<lambda>(e, f, o1). \<not> (e = ev \<and> o1)) xs = xs"
  by (induction xs) (auto split: if_splits)

lemma emit_eq:
  "emit self env ev args =
     ((if ev = ''error'' \<and> filter (\<lambda>(e, f, o1). e = ev) (u_events self) = []
       then Inl (Unhandled_error (case args of [] \<Rightarrow> JUndefined | a # r \<Rightarrow> a))
       else Inr (filter (\<lambda>(e, f, o1). e = ev) (u_events self) \<noteq> [])),
      self\<lparr>u_events := filter (\<lambda>(e, f, o1). \<not> (e = ev \<and> o1)) (u_events self)\<rparr>,
      env\<lparr>notifications := notifications env @ Emitted ev args #
             map (\<lambda>(e, f, o1). Called f args) (filter (\<lambda>(e, f, o1). e = ev) (u_events self))\<rparr>)"
proof -
  have "self\<lparr>u_events := filter (\<lambda>(e, f, o1). \<not> (e = ev \<and> o1)) (u_events self)\<rparr> = self"
    if "filter (\<lambda>(e, f, o1). e = ev) (u_events self) = []"
    using filter_once_none [OF that] by simp
  then show ?thesis
    unfolding emit_def Let_def
    by (cases "ev = ''error'' \<and> filter (\<lambda>(e, f, o1). e = ev) (u_events self) = []") simp_all
qed

lemmas op_simps = connect_def socket_write_def socket_end_def destroy_def setTimeout_def
  deliver_def onEvent_def timer_expires_def timeout_expired_def write_ack_def emit_eq
  clear_timer_eq clearTimeout_def arm_def once_def call_function_def Let_def

lemmas sample_simps = socket7_def env7_def construct_def initial_env_def to_port_def
  sample_host_def

section \<open>connect is legal from DISCONNECTED only\<close>

text \<open>
  Claim C3. \<open>connect\<close> called in a state other than \<open>DISCONNECTED\<close> throws
  \<open>Error('Socket is already bound')\<close> and leaves the socket and its surroundings as they
  were, so no command is issued. Whenever \<open>connect\<close> returns, the socket was
  \<open>DISCONNECTED\<close>, it is now \<open>CONNECTING\<close>, exactly one \<open>Sockets.connect\<close> with the
  socket's id has been added to the calls, and any further \<open>connect\<close> on the socket as
  it is then throws the same error.
\<close>

theorem connect_only_from_disconnected:
  "(u_state self \<noteq> DISCONNECTED \<longrightarrow>
      connect h self env options callback = (Inl (Error ''Socket is already bound''), self, env))
   \<and> (\<forall>self1 env1. connect h self env options callback = (Inr (), self1, env1) \<longrightarrow>
         u_state self = DISCONNECTED \<and> u_state self1 = CONNECTING
         \<and> (\<exists>a p. calls env1 = calls env @ [Sockets_connect (u_id self) a p])
         \<and> (\<forall>options2 callback2.
               connect h self1 env1 options2 callback2 =
                 (Inl (Error ''Socket is already bound''), self1, env1)))"
  by (auto simp: connect_def Let_def once_def split: if_splits jsvalue.splits)

theorem connect_only_from_disconnected_witness:
  "u_state (socket7\<lparr>u_state := CONNECTED\<rparr>) \<noteq> DISCONNECTED
   \<and> connect sample_host (socket7\<lparr>u_state := CONNECTED\<rparr>) env7 (to_port (JNumber (Finite 80))) JUndefined =
       (Inl (Error ''Socket is already bound''), socket7\<lparr>u_state := CONNECTED\<rparr>, env7)
   \<and> connect sample_host socket7 env7 (to_port (JNumber (Finite 80))) JUndefined =
       (Inr (), socket7\<lparr>u_state := CONNECTING\<rparr>,
        env7\<lparr>calls := calls env7 @ [Sockets_connect 7 ''localhost'' 80]\<rparr>)
   \<and> connect sample_host (socket7\<lparr>u_state := CONNECTING\<rparr>)
        (env7\<lparr>calls := calls env7 @ [Sockets_connect 7 ''localhost'' 80]\<rparr>)
        (to_port (JNumber (Finite 443))) JUndefined =
       (Inl (Error ''Socket is already bound''), socket7\<lparr>u_state := CONNECTING\<rparr>,
        env7\<lparr>calls := calls env7 @ [Sockets_connect 7 ''localhost'' 80]\<rparr>)"
proof -
  have first: "connect sample_host socket7 env7 (to_port (JNumber (Finite 80))) JUndefined =
       (Inr (), socket7\<lparr>u_state := CONNECTING\<rparr>,
        env7\<lparr>calls := calls env7 @ [Sockets_connect 7 ''localhost'' 80]\<rparr>)"
    by (simp add: connect_def Let_def sample_simps isLegalPort_def truncate_real_def ToInt32_def)
  have bound: "u_state (socket7\<lparr>u_state := CONNECTED\<rparr>) \<noteq> DISCONNECTED"
    by simp
  have refused: "connect sample_host (socket7\<lparr>u_state := CONNECTED\<rparr>) env7
                   (to_port (JNumber (Finite 80))) JUndefined =
       (Inl (Error ''Socket is already bound''), socket7\<lparr>u_state := CONNECTED\<rparr>, env7)"
    using connect_only_from_disconnected
        [of "socket7\<lparr>u_state := CONNECTED\<rparr>" sample_host env7 "to_port (JNumber (Finite 80))" JUndefined]
      bound by blast
  have again: "connect sample_host (socket7\<lparr>u_state := CONNECTING\<rparr>)
        (env7\<lparr>calls := calls env7 @ [Sockets_connect 7 ''localhost'' 80]\<rparr>)
        (to_port (JNumber (Finite 443))) JUndefined =
       (Inl (Error ''Socket is already bound''), socket7\<lparr>u_state := CONNECTING\<rparr>,
        env7\<lparr>calls := calls env7 @ [Sockets_connect 7 ''localhost'' 80]\<rparr>)"
    using connect_only_from_disconnected
        [of socket7 sample_host env7 "to_port (JNumber (Finite 80))" JUndefined]
      first by blast
  show ?thesis using first bound refused again by blast
qed

section \<open>write\<close>

text \<open>
  Claim C4, as the code has it. In state \<open>DISCONNECTED\<close> \<open>write\<close> throws
  \<open>Error('Socket is not connected.')\<close> and changes nothing. In the other two states a
  string, a \<open>Buffer\<close>, a \<open>Uint8Array\<close> or an \<open>Array\<close> makes it return true, the
  socket unchanged, with exactly one \<open>Sockets.write\<close> added to the calls: the socket's
  id, the payload as its codec encodes it (\<open>Base64Str.encode\<close> for a string,
  \<open>toString('base64')\<close> for a \<open>Buffer\<close> where the global \<open>Buffer\<close> exists,
  \<open>base64.fromByteArray\<close> for a \<open>Buffer\<close> where it does not, for a \<open>Uint8Array\<close>
  and for an \<open>Array\<close>), and the callback or \<open>noop\<close>. Every other payload throws
  \<open>Error('invalid message format')\<close> and changes nothing: a number, \<open>null\<close>, and also
  an array-like object that is neither a \<open>Uint8Array\<close> nor an \<open>Array\<close>.
\<close>

theorem write_by_state_and_payload:
  "(u_state self = DISCONNECTED \<longrightarrow>
      socket_write h self env buffer callback =
        (Inl (Error ''Socket is not connected.''), self, env))
   \<and> (u_state self \<noteq> DISCONNECTED \<longrightarrow>
        (\<forall>s. buffer = JString s \<longrightarrow>
           socket_write h self env buffer callback =
             (Inr True, self,
              env\<lparr>calls := calls env @
                [Sockets_write (u_id self) (Base64Str_encode h s)
                   (if ToBoolean callback then callback else JFunction noop)]\<rparr>))
        \<and> (\<forall>bs. buffer = JBuffer bs \<longrightarrow>
           socket_write h self env buffer callback =
             (Inr True, self,
              env\<lparr>calls := calls env @
                [Sockets_write (u_id self)
                   (if Buffer_defined h then Buffer_toString_base64 h bs
                    else base64_fromByteArray h buffer)
                   (if ToBoolean callback then callback else JFunction noop)]\<rparr>))
        \<and> ((\<exists>bs. buffer = JUint8Array bs) \<or> (\<exists>vs. buffer = JArray vs) \<longrightarrow>
           socket_write h self env buffer callback =
             (Inr True, self,
              env\<lparr>calls := calls env @
                [Sockets_write (u_id self) (base64_fromByteArray h buffer)
                   (if ToBoolean callback then callback else JFunction noop)]\<rparr>))
        \<and> (typeof buffer \<noteq> ''string'' \<and> (\<forall>bs. buffer \<noteq> JBuffer bs)
             \<and> (\<forall>bs. buffer \<noteq> JUint8Array bs) \<and> (\<forall>vs. buffer \<noteq> JArray vs) \<longrightarrow>
           socket_write h self env buffer callback =
             (Inl (Error ''invalid message format''), self, env)))"
  by (cases buffer) (simp_all add: socket_write_def encode_def Let_def)

text \<open>
  An array-like of byte values that is not an array: the object
  \<open>{0: 104, 1: 105, length: 2}\<close> written to a connected socket is refused with
  \<open>Error('invalid message format')\<close> and no \<open>Sockets.write\<close> is issued.
\<close>

theorem write_array_like_counterexample:
  "u_state (socket7\<lparr>u_state := CONNECTED\<rparr>) = CONNECTED
   \<and> socket_write sample_host (socket7\<lparr>u_state := CONNECTED\<rparr>) env7 array_like_hi JUndefined =
       (Inl (Error ''invalid message format''), socket7\<lparr>u_state := CONNECTED\<rparr>, env7)"
  by (simp add: socket_write_def encode_def array_like_hi_def Let_def)

theorem write_by_state_and_payload_witness:
  "u_state socket7 = DISCONNECTED
   \<and> socket_write sample_host socket7 env7 (JString ''hi'') JUndefined =
       (Inl (Error ''Socket is not connected.''), socket7, env7)
   \<and> u_state (socket7\<lparr>u_state := CONNECTING\<rparr>) \<noteq> DISCONNECTED
   \<and> socket_write sample_host (socket7\<lparr>u_state := CONNECTING\<rparr>) env7 (JString ''hi'') JUndefined =
       (Inr True, socket7\<lparr>u_state := CONNECTING\<rparr>,
        env7\<lparr>calls := calls env7 @ [Sockets_write 7 ''aGk='' (JFunction noop)]\<rparr>)
   \<and> socket_write sample_host (socket7\<lparr>u_state := CONNECTED\<rparr>) env7 (JBuffer [104, 105])
         (JFunction (Consumer 1)) =
       (Inr True, socket7\<lparr>u_state := CONNECTED\<rparr>,
        env7\<lparr>calls := calls env7 @ [Sockets_write 7 ''aGk='' (JFunction (Consumer 1))]\<rparr>)
   \<and> \<not> Buffer_defined (sample_host\<lparr>Buffer_defined := False\<rparr>)
   \<and> socket_write (sample_host\<lparr>Buffer_defined := False\<rparr>) (socket7\<lparr>u_state := CONNECTED\<rparr>) env7
         (JBuffer [104, 105]) JUndefined =
       (Inr True, socket7\<lparr>u_state := CONNECTED\<rparr>,
        env7\<lparr>calls := calls env7 @ [Sockets_write 7 ''aGk='' (JFunction noop)]\<rparr>)
   \<and> socket_write sample_host (socket7\<lparr>u_state := CONNECTED\<rparr>) env7 (JUint8Array [104, 105])
         JUndefined =
       (Inr True, socket7\<lparr>u_state := CONNECTED\<rparr>,
        env7\<lparr>calls := calls env7 @ [Sockets_write 7 ''aGk='' (JFunction noop)]\<rparr>)
   \<and> socket_write sample_host (socket7\<lparr>u_state := CONNECTED\<rparr>) env7 (JArray [JNumber (Finite 104), JNumber (Finite 105)])
         JUndefined =
       (Inr True, socket7\<lparr>u_state := CONNECTED\<rparr>,
        env7\<lparr>calls := calls env7 @ [Sockets_write 7 ''aGk='' (JFunction noop)]\<rparr>)
   \<and> socket_write sample_host (socket7\<lparr>u_state := CONNECTED\<rparr>) env7 (JNumber (Finite 5))
         JUndefined =
       (Inl (Error ''invalid message format''), socket7\<lparr>u_state := CONNECTED\<rparr>, env7)"
proof -
  have id7: "u_id socket7 = 7" and st7: "u_state socket7 = DISCONNECTED"
    by (simp_all add: sample_simps)
  have hi: "Base64Str_encode sample_host ''hi'' = ''aGk=''"
    and hib: "Buffer_toString_base64 sample_host [104, 105] = ''aGk=''"
    and hiu: "base64_fromByteArray sample_host (JUint8Array [104, 105]) = ''aGk=''"
    and bd: "Buffer_defined sample_host"
    by (simp_all add: sample_host_def base64_chars_def)
  have hia: "base64_fromByteArray sample_host (JArray [JNumber (Finite 104), JNumber (Finite 105)])
      = ''aGk=''"
    by (simp add: sample_host_def base64_chars_def sample_number_def truncate_real_def)
  have nb: "\<not> Buffer_defined (sample_host\<lparr>Buffer_defined := False\<rparr>)"
    by simp
  have hif: "base64_fromByteArray sample_host (JBuffer [104, 105]) = ''aGk=''"
    by (simp add: sample_host_def base64_chars_def)
  note w1 = write_by_state_and_payload [of socket7 sample_host env7 "JString ''hi''" JUndefined]
  note w2 = write_by_state_and_payload
    [of "socket7\<lparr>u_state := CONNECTING\<rparr>" sample_host env7 "JString ''hi''" JUndefined]
  note w3 = write_by_state_and_payload
    [of "socket7\<lparr>u_state := CONNECTED\<rparr>" sample_host env7 "JBuffer [104, 105]"
        "JFunction (Consumer 1)"]
  note w3' = write_by_state_and_payload
    [of "socket7\<lparr>u_state := CONNECTED\<rparr>" "sample_host\<lparr>Buffer_defined := False\<rparr>" env7
        "JBuffer [104, 105]" JUndefined]
  note w4 = write_by_state_and_payload
    [of "socket7\<lparr>u_state := CONNECTED\<rparr>" sample_host env7 "JUint8Array [104, 105]" JUndefined]
  note w4' = write_by_state_and_payload
    [of "socket7\<lparr>u_state := CONNECTED\<rparr>" sample_host env7
        "JArray [JNumber (Finite 104), JNumber (Finite 105)]" JUndefined]
  note w5 = write_by_state_and_payload
    [of "socket7\<lparr>u_state := CONNECTED\<rparr>" sample_host env7 "JNumber (Finite 5)" JUndefined]
  have a: "socket_write sample_host socket7 env7 (JString ''hi'') JUndefined =
       (Inl (Error ''Socket is not connected.''), socket7, env7)"
    using w1 st7 by blast
  have b: "socket_write sample_host (socket7\<lparr>u_state := CONNECTING\<rparr>) env7 (JString ''hi'') JUndefined =
       (Inr True, socket7\<lparr>u_state := CONNECTING\<rparr>,
        env7\<lparr>calls := calls env7 @ [Sockets_write 7 ''aGk='' (JFunction noop)]\<rparr>)"
    using w2 by (simp add: id7 hi)
  have c: "socket_write sample_host (socket7\<lparr>u_state := CONNECTED\<rparr>) env7 (JBuffer [104, 105])
         (JFunction (Consumer 1)) =
       (Inr True, socket7\<lparr>u_state := CONNECTED\<rparr>,
        env7\<lparr>calls := calls env7 @ [Sockets_write 7 ''aGk='' (JFunction (Consumer 1))]\<rparr>)"
    using w3 bd by (simp add: id7 hib)
  have c': "socket_write (sample_host\<lparr>Buffer_defined := False\<rparr>) (socket7\<lparr>u_state := CONNECTED\<rparr>) env7
         (JBuffer [104, 105]) JUndefined =
       (Inr True, socket7\<lparr>u_state := CONNECTED\<rparr>,
        env7\<lparr>calls := calls env7 @ [Sockets_write 7 ''aGk='' (JFunction noop)]\<rparr>)"
    using w3' by (simp add: id7 hif)
  have d: "socket_write sample_host (socket7\<lparr>u_state := CONNECTED\<rparr>) env7 (JUint8Array [104, 105])
         JUndefined =
       (Inr True, socket7\<lparr>u_state := CONNECTED\<rparr>,
        env7\<lparr>calls := calls env7 @ [Sockets_write 7 ''aGk='' (JFunction noop)]\<rparr>)"
    using w4 by (simp add: id7 hiu)
  have d': "socket_write sample_host (socket7\<lparr>u_state := CONNECTED\<rparr>) env7
         (JArray [JNumber (Finite 104), JNumber (Finite 105)]) JUndefined =
       (Inr True, socket7\<lparr>u_state := CONNECTED\<rparr>,
        env7\<lparr>calls := calls env7 @ [Sockets_write 7 ''aGk='' (JFunction noop)]\<rparr>)"
    using w4' by (simp add: id7 hia)
  have e: "socket_write sample_host (socket7\<lparr>u_state := CONNECTED\<rparr>) env7 (JNumber (Finite 5))
         JUndefined =
       (Inl (Error ''invalid message format''), socket7\<lparr>u_state := CONNECTED\<rparr>, env7)"
    using w5 by simp
  have f: "u_state (socket7\<lparr>u_state := CONNECTING\<rparr>) \<noteq> DISCONNECTED" by simp
  show ?thesis
    by (rule conjI [OF st7 conjI [OF a conjI [OF f conjI [OF b conjI [OF c conjI [OF nb
          conjI [OF c' conjI [OF d conjI [OF d' e]]]]]]]]])
qed

section \<open>What a step leaves alone\<close>

lemma step_destroyed:
  assumes "u_destroyed self"
  shows "u_destroyed (fst (step h a (self, env)))"
proof (cases a)
  case (Connect options callback)
  then show ?thesis using assms by (simp add: op_simps split: jsvalue.splits)
next
  case (Write buffer callback)
  then show ?thesis using assms by (simp add: op_simps split: option.splits)
next
  case (End data1 encoding)
  then show ?thesis using assms by (simp add: op_simps)
next
  case Destroy
  then show ?thesis by (simp add: op_simps)
next
  case (SetTimeout msecs callback)
  then show ?thesis using assms by (simp add: op_simps split: jsvalue.splits)
next
  case (Deliver info)
  then show ?thesis using assms by (simp add: op_simps split: sum.splits)
next
  case (TimerExpires t)
  then show ?thesis using assms by (simp add: op_simps)
next
  case (WriteAck cb err)
  then show ?thesis using assms by (simp add: op_simps split: jsvalue.splits)
qed

lemma run_destroyed: "u_destroyed (fst c) \<Longrightarrow> u_destroyed (fst (run h acts c))"
proof (induction acts arbitrary: c)
  case Nil
  then show ?case by simp
next
  case (Cons a acts)
  obtain self env where c: "c = (self, env)" by (cases c)
  with Cons.prems have "u_destroyed (fst (step h a c))"
    by (simp add: step_destroyed)
  then show ?case using Cons.IH by simp
qed

section \<open>Tearing down twice\<close>

text \<open>
  Claim C5. \<open>destroy\<close> leaves the socket marked destroyed, and so does every \<open>end\<close>
  that returns. On a socket marked destroyed, \<open>destroy\<close> and \<open>end\<close> return with the
  socket and its surroundings exactly as they were: no call is added (no second
  \<open>Sockets.destroy\<close>, no second \<open>remove\<close> of the subscription). The mark is never taken
  back, so this holds after any further history of the socket.
\<close>

theorem teardown_idempotent:
  "u_destroyed (fst (destroy self env))
   \<and> (\<forall>self1 env1. socket_end h self env d enc = (Inr (), self1, env1) \<longrightarrow> u_destroyed self1)
   \<and> (u_destroyed self \<longrightarrow>
        destroy self env = (self, env) \<and> socket_end h self env d enc = (Inr (), self, env)
        \<and> (\<forall>acts. case run h acts (self, env) of
                     (self2, env2) \<Rightarrow>
                       u_destroyed self2 \<and> destroy self2 env2 = (self2, env2)
                       \<and> socket_end h self2 env2 d enc = (Inr (), self2, env2)))"
proof -
  have a: "u_destroyed (fst (destroy self env))"
    by (simp add: destroy_def)
  have b: "\<forall>self1 env1. socket_end h self env d enc = (Inr (), self1, env1) \<longrightarrow> u_destroyed self1"
    by (auto simp: socket_end_def socket_write_def Let_def split: if_splits option.splits)
  have noop: "destroy s e = (s, e) \<and> socket_end h s e d enc = (Inr (), s, e)"
    if "u_destroyed s" for s e
    using that by (simp add: destroy_def socket_end_def)
  have c: "case run h acts (self, env) of
             (self2, env2) \<Rightarrow>
               u_destroyed self2 \<and> destroy self2 env2 = (self2, env2)
               \<and> socket_end h self2 env2 d enc = (Inr (), self2, env2)"
    if "u_destroyed self" for acts
  proof -
    obtain s2 e2 where r: "run h acts (self, env) = (s2, e2)"
      by (cases "run h acts (self, env)")
    have "u_destroyed (fst (run h acts (self, env)))"
      using that by (simp add: run_destroyed)
    then have "u_destroyed s2" by (simp add: r)
    then show ?thesis using noop r by simp
  qed
  have third: "u_destroyed self \<longrightarrow>
        destroy self env = (self, env) \<and> socket_end h self env d enc = (Inr (), self, env)
        \<and> (\<forall>acts. case run h acts (self, env) of
                     (self2, env2) \<Rightarrow>
                       u_destroyed self2 \<and> destroy self2 env2 = (self2, env2)
                       \<and> socket_end h self2 env2 d enc = (Inr (), self2, env2))"
  proof
    assume ds: "u_destroyed self"
    from noop [OF ds] have n1: "destroy self env = (self, env)"
      and n2: "socket_end h self env d enc = (Inr (), self, env)"
      by blast+
    from c [OF ds] have n3: "\<forall>acts. case run h acts (self, env) of
                     (self2, env2) \<Rightarrow>
                       u_destroyed self2 \<and> destroy self2 env2 = (self2, env2)
                       \<and> socket_end h self2 env2 d enc = (Inr (), self2, env2)"
      by (rule allI)
    show "destroy self env = (self, env) \<and> socket_end h self env d enc = (Inr (), self, env)
        \<and> (\<forall>acts. case run h acts (self, env) of
                     (self2, env2) \<Rightarrow>
                       u_destroyed self2 \<and> destroy self2 env2 = (self2, env2)
                       \<and> socket_end h self2 env2 d enc = (Inr (), self2, env2))"
      by (rule conjI [OF n1 conjI [OF n2 n3]])
  qed
  show ?thesis by (rule conjI [OF a conjI [OF b third]])
qed

theorem teardown_idempotent_witness:
  "u_destroyed (fst (destroy socket7 env7))
   \<and> destroy socket7 env7 =
       (socket7\<lparr>u_destroyed := True\<rparr>,
        env7\<lparr>subscriptions := [], calls := calls env7 @ [Subscription_remove 0, Sockets_destroy 7]\<rparr>)
   \<and> destroy (fst (destroy socket7 env7)) (snd (destroy socket7 env7)) = destroy socket7 env7
   \<and> socket_end sample_host (fst (destroy socket7 env7)) (snd (destroy socket7 env7))
        (JString ''bye'') JUndefined = (Inr (), destroy socket7 env7)
   \<and> socket_end sample_host socket7 env7 JUndefined JUndefined =
       (Inr (), socket7\<lparr>u_destroyed := True\<rparr>,
        env7\<lparr>subscriptions := [], calls := calls env7 @ [Subscription_remove 0, Sockets_end 7]\<rparr>)
   \<and> destroy (socket7\<lparr>u_destroyed := True\<rparr>)
        (env7\<lparr>subscriptions := [], calls := calls env7 @ [Subscription_remove 0, Sockets_end 7]\<rparr>) =
       (socket7\<lparr>u_destroyed := True\<rparr>,
        env7\<lparr>subscriptions := [], calls := calls env7 @ [Subscription_remove 0, Sockets_end 7]\<rparr>)"
proof -
  have d1: "destroy socket7 env7 =
       (socket7\<lparr>u_destroyed := True\<rparr>,
        env7\<lparr>subscriptions := [], calls := calls env7 @ [Subscription_remove 0, Sockets_destroy 7]\<rparr>)"
    by (simp add: destroy_def sample_simps)
  have e1: "socket_end sample_host socket7 env7 JUndefined JUndefined =
       (Inr (), socket7\<lparr>u_destroyed := True\<rparr>,
        env7\<lparr>subscriptions := [], calls := calls env7 @ [Subscription_remove 0, Sockets_end 7]\<rparr>)"
    by (simp add: socket_end_def sample_simps)
  note t1 = teardown_idempotent [of socket7 env7 sample_host JUndefined JUndefined]
  note t2 = teardown_idempotent
    [of "fst (destroy socket7 env7)" "snd (destroy socket7 env7)" sample_host "JString ''bye''" JUndefined]
  note t3 = teardown_idempotent
    [of "socket7\<lparr>u_destroyed := True\<rparr>"
        "env7\<lparr>subscriptions := [], calls := calls env7 @ [Subscription_remove 0, Sockets_end 7]\<rparr>"
        sample_host JUndefined JUndefined]
  have m: "u_destroyed (fst (destroy socket7 env7))"
    by (rule t1 [THEN conjunct1])
  note t2' = t2 [THEN conjunct2, THEN conjunct2, THEN mp, OF m]
  have again: "destroy (fst (destroy socket7 env7)) (snd (destroy socket7 env7)) = destroy socket7 env7"
    using t2' [THEN conjunct1] by simp
  have again_end: "socket_end sample_host (fst (destroy socket7 env7)) (snd (destroy socket7 env7))
        (JString ''bye'') JUndefined = (Inr (), destroy socket7 env7)"
    using t2' [THEN conjunct2, THEN conjunct1] by simp
  have after_end: "destroy (socket7\<lparr>u_destroyed := True\<rparr>)
        (env7\<lparr>subscriptions := [], calls := calls env7 @ [Subscription_remove 0, Sockets_end 7]\<rparr>) =
       (socket7\<lparr>u_destroyed := True\<rparr>,
        env7\<lparr>subscriptions := [], calls := calls env7 @ [Subscription_remove 0, Sockets_end 7]\<rparr>)"
    using t3 [THEN conjunct2, THEN conjunct2, THEN mp, THEN conjunct1] by simp
  show ?thesis
    by (rule conjI [OF m conjI [OF d1 conjI [OF again conjI [OF again_end conjI [OF e1 after_end]]]]])
qed

section \<open>What end and destroy leave alone\<close>

lemma write_outcome_by_state:
  "u_state s1 = u_state s2 \<Longrightarrow>
   fst (socket_write h s1 e1 buffer callback) = fst (socket_write h s2 e2 buffer callback)"
  by (simp add: socket_write_def Let_def split: option.splits)

lemma write_accepted:
  assumes "u_state self \<noteq> DISCONNECTED" and "encode h buffer = Some str"
  shows "socket_write h self env buffer callback =
           (Inr True, self,
            env\<lparr>calls := calls env @
              [Sockets_write (u_id self) str
                 (if ToBoolean callback then callback else JFunction noop)]\<rparr>)"
  using assms by (simp add: socket_write_def Let_def)

lemma encode_accepts:
  "(\<exists>s. buffer = JString s) \<or> (\<exists>bs. buffer = JBuffer bs)
   \<or> (\<exists>bs. buffer = JUint8Array bs) \<or> (\<exists>vs. buffer = JArray vs)
   \<Longrightarrow> \<exists>str. encode h buffer = Some str"
  by (auto simp: encode_def)

lemma end_socket_cases:
  "fst (snd (socket_end h self env d enc)) = self
   \<or> fst (snd (socket_end h self env d enc)) = self\<lparr>u_destroyed := True\<rparr>"
  by (simp add: socket_end_def socket_write_def Let_def split: option.splits)

lemma end_env_frame:
  "snd (snd (socket_end h self env d enc)) =
     env\<lparr>subscriptions := subscriptions (snd (snd (socket_end h self env d enc))),
         calls := calls (snd (snd (socket_end h self env d enc)))\<rparr>"
  by (simp add: socket_end_def socket_write_def Let_def split: option.splits)

text \<open>
  Claim C10. Of the socket's fields \<open>destroy\<close> and \<open>end\<close> change \<open>_destroyed\<close> only:
  afterwards the socket is the one before, or the one before marked destroyed, so
  \<open>_state\<close>, \<open>readable\<close> and \<open>writable\<close> are as they were; of the surroundings they
  change the subscriptions held and the calls made. Hence a \<open>write\<close> has the same outcome
  after \<open>destroy\<close> or \<open>end\<close> as before, and on a socket that is \<open>CONNECTED\<close> a payload
  that \<open>write\<close> encodes (a string, a \<open>Buffer\<close>, a \<open>Uint8Array\<close>, an \<open>Array\<close>)
  written after \<open>destroy\<close> still returns true and adds a \<open>Sockets.write\<close> with the id
  of the destroyed socket.
\<close>

theorem teardown_frame:
  "fst (destroy self env) = self\<lparr>u_destroyed := True\<rparr>
   \<and> snd (destroy self env) =
       env\<lparr>subscriptions := subscriptions (snd (destroy self env)),
           calls := calls (snd (destroy self env))\<rparr>
   \<and> (fst (snd (socket_end h self env d enc)) = self
        \<or> fst (snd (socket_end h self env d enc)) = self\<lparr>u_destroyed := True\<rparr>)
   \<and> snd (snd (socket_end h self env d enc)) =
       env\<lparr>subscriptions := subscriptions (snd (snd (socket_end h self env d enc))),
           calls := calls (snd (snd (socket_end h self env d enc)))\<rparr>
   \<and> u_state (fst (destroy self env)) = u_state self
   \<and> readable (fst (destroy self env)) = readable self
   \<and> writable (fst (destroy self env)) = writable self
   \<and> u_state (fst (snd (socket_end h self env d enc))) = u_state self
   \<and> readable (fst (snd (socket_end h self env d enc))) = readable self
   \<and> writable (fst (snd (socket_end h self env d enc))) = writable self
   \<and> fst (socket_write h (fst (destroy self env)) (snd (destroy self env)) buffer callback) =
       fst (socket_write h self env buffer callback)
   \<and> (u_state self = CONNECTED \<and>
        ((\<exists>s. buffer = JString s) \<or> (\<exists>bs. buffer = JBuffer bs)
         \<or> (\<exists>bs. buffer = JUint8Array bs) \<or> (\<exists>vs. buffer = JArray vs)) \<longrightarrow>
        (\<exists>str. encode h buffer = Some str \<and>
           socket_write h (fst (destroy self env)) (snd (destroy self env)) buffer callback =
             (Inr True, fst (destroy self env),
              (snd (destroy self env))\<lparr>calls := calls (snd (destroy self env)) @
                 [Sockets_write (u_id self) str
                    (if ToBoolean callback then callback else JFunction noop)]\<rparr>)))"
proof -
  have d1: "fst (destroy self env) = self\<lparr>u_destroyed := True\<rparr>"
    by (simp add: destroy_def)
  have d2: "snd (destroy self env) =
       env\<lparr>subscriptions := subscriptions (snd (destroy self env)),
           calls := calls (snd (destroy self env))\<rparr>"
    by (simp add: destroy_def)
  note e1 = end_socket_cases [of h self env d enc]
  note e2 = end_env_frame [of h self env d enc]
  have d3: "u_state (fst (destroy self env)) = u_state self"
    and d4: "readable (fst (destroy self env)) = readable self"
    and d5: "writable (fst (destroy self env)) = writable self"
    and d6: "u_id (fst (destroy self env)) = u_id self"
    by (simp_all add: d1)
  have e3: "u_state (fst (snd (socket_end h self env d enc))) = u_state self"
    and e4: "readable (fst (snd (socket_end h self env d enc))) = readable self"
    and e5: "writable (fst (snd (socket_end h self env d enc))) = writable self"
    using e1 by auto
  have w1: "fst (socket_write h (fst (destroy self env)) (snd (destroy self env)) buffer callback) =
       fst (socket_write h self env buffer callback)"
    by (rule write_outcome_by_state [OF d3])
  have w2: "u_state self = CONNECTED \<and>
        ((\<exists>s. buffer = JString s) \<or> (\<exists>bs. buffer = JBuffer bs)
         \<or> (\<exists>bs. buffer = JUint8Array bs) \<or> (\<exists>vs. buffer = JArray vs)) \<longrightarrow>
        (\<exists>str. encode h buffer = Some str \<and>
           socket_write h (fst (destroy self env)) (snd (destroy self env)) buffer callback =
             (Inr True, fst (destroy self env),
              (snd (destroy self env))\<lparr>calls := calls (snd (destroy self env)) @
                 [Sockets_write (u_id self) str
                    (if ToBoolean callback then callback else JFunction noop)]\<rparr>))"
  proof
    assume a: "u_state self = CONNECTED \<and>
        ((\<exists>s. buffer = JString s) \<or> (\<exists>bs. buffer = JBuffer bs)
         \<or> (\<exists>bs. buffer = JUint8Array bs) \<or> (\<exists>vs. buffer = JArray vs))"
    then obtain str where s: "encode h buffer = Some str"
      using encode_accepts [of buffer h] by blast
    from a have "u_state (fst (destroy self env)) \<noteq> DISCONNECTED"
      by (simp add: d3)
    from write_accepted [OF this s, of "snd (destroy self env)" callback]
    have "socket_write h (fst (destroy self env)) (snd (destroy self env)) buffer callback =
             (Inr True, fst (destroy self env),
              (snd (destroy self env))\<lparr>calls := calls (snd (destroy self env)) @
                 [Sockets_write (u_id self) str
                    (if ToBoolean callback then callback else JFunction noop)]\<rparr>)"
      by (simp only: d6)
    with s show "\<exists>str. encode h buffer = Some str \<and>
           socket_write h (fst (destroy self env)) (snd (destroy self env)) buffer callback =
             (Inr True, fst (destroy self env),
              (snd (destroy self env))\<lparr>calls := calls (snd (destroy self env)) @
                 [Sockets_write (u_id self) str
                    (if ToBoolean callback then callback else JFunction noop)]\<rparr>)"
      by blast
  qed
  show ?thesis
    by (intro conjI) (rule d1 d2 e1 e2 d3 d4 d5 e3 e4 e5 w1 w2)+
qed

theorem teardown_frame_witness:
  "u_state (socket7\<lparr>u_state := CONNECTED\<rparr>) = CONNECTED
   \<and> destroy (socket7\<lparr>u_state := CONNECTED\<rparr>) env7 =
       (socket7\<lparr>u_state := CONNECTED, u_destroyed := True\<rparr>,
        env7\<lparr>subscriptions := [], calls := calls env7 @ [Subscription_remove 0, Sockets_destroy 7]\<rparr>)
   \<and> socket_write sample_host (socket7\<lparr>u_state := CONNECTED, u_destroyed := True\<rparr>)
        (env7\<lparr>subscriptions := [],
              calls := calls env7 @ [Subscription_remove 0, Sockets_destroy 7]\<rparr>)
        (JString ''hi'') JUndefined =
       (Inr True, socket7\<lparr>u_state := CONNECTED, u_destroyed := True\<rparr>,
        env7\<lparr>subscriptions := [],
             calls := calls env7 @
               [Subscription_remove 0, Sockets_destroy 7, Sockets_write 7 ''aGk='' (JFunction noop)]\<rparr>)"
proof -
  have c: "u_state (socket7\<lparr>u_state := CONNECTED\<rparr>) = CONNECTED"
    by simp
  have d: "destroy (socket7\<lparr>u_state := CONNECTED\<rparr>) env7 =
       (socket7\<lparr>u_state := CONNECTED, u_destroyed := True\<rparr>,
        env7\<lparr>subscriptions := [], calls := calls env7 @ [Subscription_remove 0, Sockets_destroy 7]\<rparr>)"
    by (simp add: destroy_def sample_simps)
  have hi: "encode sample_host (JString ''hi'') = Some ''aGk=''"
    by (simp add: encode_def sample_host_def base64_chars_def)
  have id7: "u_id socket7 = 7"
    by (simp add: sample_simps)
  have pre: "u_state (socket7\<lparr>u_state := CONNECTED\<rparr>) = CONNECTED \<and>
        ((\<exists>s. JString ''hi'' = JString s) \<or> (\<exists>bs. JString ''hi'' = JBuffer bs)
         \<or> (\<exists>bs. JString ''hi'' = JUint8Array bs) \<or> (\<exists>vs. JString ''hi'' = JArray vs))"
    by simp
  note t = teardown_frame
    [of "socket7\<lparr>u_state := CONNECTED\<rparr>" env7 sample_host _ _ "JString ''hi''" JUndefined]
  from t have "\<exists>str. encode sample_host (JString ''hi'') = Some str \<and>
           socket_write sample_host (fst (destroy (socket7\<lparr>u_state := CONNECTED\<rparr>) env7))
             (snd (destroy (socket7\<lparr>u_state := CONNECTED\<rparr>) env7)) (JString ''hi'') JUndefined =
             (Inr True, fst (destroy (socket7\<lparr>u_state := CONNECTED\<rparr>) env7),
              (snd (destroy (socket7\<lparr>u_state := CONNECTED\<rparr>) env7))
                \<lparr>calls := calls (snd (destroy (socket7\<lparr>u_state := CONNECTED\<rparr>) env7)) @
                 [Sockets_write (u_id (socket7\<lparr>u_state := CONNECTED\<rparr>)) str
                    (if ToBoolean JUndefined then JUndefined else JFunction noop)]\<rparr>)"
    using pre by blast
  then have w: "socket_write sample_host (socket7\<lparr>u_state := CONNECTED, u_destroyed := True\<rparr>)
        (env7\<lparr>subscriptions := [],
              calls := calls env7 @ [Subscription_remove 0, Sockets_destroy 7]\<rparr>)
        (JString ''hi'') JUndefined =
       (Inr True, socket7\<lparr>u_state := CONNECTED, u_destroyed := True\<rparr>,
        env7\<lparr>subscriptions := [],
             calls := calls env7 @
               [Subscription_remove 0, Sockets_destroy 7, Sockets_write 7 ''aGk='' (JFunction noop)]\<rparr>)"
    by (simp add: d hi id7)
  show ?thesis by (rule conjI [OF c conjI [OF d w]])
qed

section \<open>Allocation of client ids\<close>

lemma pick_id_found:
  "random_id (random (k + n)) \<notin> set used \<Longrightarrow>
   \<exists>j \<le> n. random_id (random (k + j)) \<notin> set used
          \<and> (\<forall>i < j. random_id (random (k + i)) \<in> set used)
          \<and> pick_id random k used = Some (random_id (random (k + j)), Suc (k + j))"
proof (induction n arbitrary: k)
  case 0
  then show ?case by (simp add: pick_id.simps)
next
  case (Suc n)
  show ?case
  proof (cases "random_id (random k) \<in> set used")
    case False
    then have "pick_id random k used = Some (random_id (random k), Suc k)"
      by (simp add: pick_id.simps)
    with False show ?thesis by (intro exI [of _ 0]) simp
  next
    case True
    from Suc.prems have "random_id (random (Suc k + n)) \<notin> set used" by simp
    from Suc.IH [OF this] obtain j where j: "j \<le> n"
      "random_id (random (Suc k + j)) \<notin> set used"
      "\<forall>i < j. random_id (random (Suc k + i)) \<in> set used"
      "pick_id random (Suc k) used = Some (random_id (random (Suc k + j)), Suc (Suc k + j))"
      by blast
    have step: "pick_id random k used = pick_id random (Suc k) used"
      using True by (subst pick_id.simps) simp
    have below: "\<forall>i < Suc j. random_id (random (k + i)) \<in> set used"
    proof (intro allI impI)
      fix i assume "i < Suc j"
      show "random_id (random (k + i)) \<in> set used"
      proof (cases i)
        case 0
        then show ?thesis using True by simp
      next
        case (Suc i')
        with \<open>i < Suc j\<close> have "i' < j" by simp
        with j(3) have "random_id (random (Suc k + i')) \<in> set used" by blast
        then show ?thesis using Suc by simp
      qed
    qed
    show ?thesis
      using j(1) j(2) j(4) below step by (intro exI [of _ "Suc j"]) simp
  qed
qed

lemma pick_id_sound:
  assumes "pick_id random k used = Some r"
  shows "fst r \<notin> set used \<and> k < snd r \<and> fst r = random_id (random (snd r - 1))"
proof (rule pick_id.raw_induct
    [where P = "\<lambda>random k used r.
       fst r \<notin> set used \<and> k < snd r \<and> fst r = random_id (random (snd r - 1))",
     OF _ assms])
  fix pick :: "(nat \<Rightarrow> real) \<Rightarrow> nat \<Rightarrow> int list \<Rightarrow> (int \<times> nat) option"
    and random k used r
  assume IH: "\<And>random k used r. pick random k used = Some r \<Longrightarrow>
       fst r \<notin> set used \<and> k < snd r \<and> fst r = random_id (random (snd r - 1))"
    and body: "(if random_id (random k) \<in> set used then pick random (Suc k) used
                else Some (random_id (random k), Suc k)) = Some r"
  show "fst r \<notin> set used \<and> k < snd r \<and> fst r = random_id (random (snd r - 1))"
  proof (cases "random_id (random k) \<in> set used")
    case True
    with body have "pick random (Suc k) used = Some r" by simp
    from IH [OF this] show ?thesis by auto
  next
    case False
    with body show ?thesis by auto
  qed
qed

lemma pick_id_never:
  assumes "\<forall>j \<ge> k. random_id (random j) \<in> set used"
  shows "pick_id random k used = None"
proof (cases "pick_id random k used")
  case None
  then show ?thesis .
next
  case (Some r)
  obtain i k1 where r: "r = (i, k1)" by (cases r)
  from pick_id_sound [of random k used r] Some r
  have "i \<notin> set used" "k < k1" "i = random_id (random (k1 - 1))" by auto
  moreover from \<open>k < k1\<close> have "k \<le> k1 - 1" by simp
  ultimately show ?thesis using assms by blast
qed


lemma step_usedIds: "usedIds (snd (step h a (self, env))) = usedIds env"
proof (cases a)
  case (Connect options callback)
  then show ?thesis by (simp add: op_simps split: jsvalue.splits)
next
  case (Write buffer callback)
  then show ?thesis by (simp add: op_simps split: option.splits)
next
  case (End data1 encoding)
  then show ?thesis by (simp add: op_simps split: option.splits)
next
  case Destroy
  then show ?thesis by (simp add: op_simps)
next
  case (SetTimeout msecs callback)
  then show ?thesis by (simp add: op_simps split: jsvalue.splits)
next
  case (Deliver info)
  then show ?thesis by (simp add: op_simps split: sum.splits)
next
  case (TimerExpires t)
  then show ?thesis by (simp add: op_simps)
next
  case (WriteAck cb err)
  then show ?thesis by (simp add: op_simps split: jsvalue.splits)
qed

lemma run_usedIds: "usedIds (snd (run h acts c)) = usedIds (snd c)"
proof (induction acts arbitrary: c)
  case Nil
  then show ?case by simp
next
  case (Cons a acts)
  obtain self env where c: "c = (self, env)" by (cases c)
  have "usedIds (snd (run h acts (step h a c))) = usedIds (snd (step h a c))"
    by (rule Cons.IH)
  then show ?case by (simp add: c step_usedIds)
qed

lemma new_usedIds:
  assumes "TcpSocket_new random k env options = Some (s1, e1, k1)"
  shows "usedIds e1 = usedIds env @ [u_id s1]"
    and "given_id options = None \<Longrightarrow> u_id s1 \<notin> set (usedIds env)"
proof -
  show "usedIds e1 = usedIds env @ [u_id s1]"
    using assms
    by (auto simp: TcpSocket_new_def construct_def split: option.splits prod.splits)
  show "u_id s1 \<notin> set (usedIds env)" if g: "given_id options = None"
  proof -
    from assms g obtain i where p: "pick_id random k (usedIds env) = Some (i, k1)"
      and s: "s1 = fst (construct i False env)"
      by (auto simp: TcpSocket_new_def split: option.splits prod.splits)
    from pick_id_sound [OF p] have "i \<notin> set (usedIds env)" by auto
    then show ?thesis by (simp add: s construct_def)
  qed
qed

lemma pick_id_exhausted:
  assumes "\<forall>j. unit_double (random j)" and "{1..1000} \<subseteq> set used"
  shows "pick_id random k used = None"
proof (rule pick_id_never, intro allI impI)
  fix j
  from assms(1) have "unit_double (random j)" by (rule spec)
  then have "1 \<le> random_id (random j) \<and> random_id (random j) \<le> 1000"
    by (rule random_id_range)
  with assms(2) show "random_id (random j) \<in> set used" by auto
qed

lemma pick_id_first:
  assumes "pick_id random k used = Some (i, k1)"
  shows "\<forall>j. k \<le> j \<and> j < k1 - 1 \<longrightarrow> random_id (random j) \<in> set used"
proof (intro allI impI)
  fix j
  assume j: "k \<le> j \<and> j < k1 - 1"
  from pick_id_sound [OF assms]
  have out: "i \<notin> set used" and lt: "k < k1" and i: "i = random_id (random (k1 - 1))"
    by auto
  from lt have "k + (k1 - 1 - k) = k1 - 1" by simp
  with out i have "random_id (random (k + (k1 - 1 - k))) \<notin> set used" by simp
  from pick_id_found [of random k "k1 - 1 - k" used, OF this] assms
  obtain m where m: "\<forall>n < m. random_id (random (k + n)) \<in> set used"
    and k1: "k1 = Suc (k + m)"
    by auto
  from j k1 have "j - k < m" by auto
  with m have "random_id (random (k + (j - k))) \<in> set used" by blast
  with j show "random_id (random j) \<in> set used" by simp
qed

lemma new_from_pick:
  assumes "pick_id random k (usedIds env) = Some (i, k1)"
  shows "\<exists>s e. TcpSocket_new random k env None = Some (s, e, k1) \<and> u_id s = i
           \<and> usedIds e = usedIds env @ [i]"
  using assms by (simp add: TcpSocket_new_def given_id_def construct_def)

text \<open>
  Claim C2, as the code has it. The loop of the constructor returns exactly when some
  later value of \<open>Math.random()\<close> gives an id that is not in \<open>usedIds\<close>, and then it
  returns the first such id: every value drawn before it gave an id in use. The
  constructor then returns a socket with that id and appends the id to \<open>usedIds\<close>. There
  is no bound on the retries and no error: when every id from 1 to 1000 is in \<open>usedIds\<close>
  the loop does not end and the constructor does not return, whatever doubles from 0 up to
  1 \<open>Math.random()\<close> yields.
\<close>

theorem allocation_returns_iff:
  "((\<exists>r. pick_id random k used = Some r) \<longleftrightarrow> (\<exists>j \<ge> k. random_id (random j) \<notin> set used))
   \<and> (\<forall>i k1. pick_id random k used = Some (i, k1) \<longrightarrow>
         i \<notin> set used \<and> k < k1 \<and> i = random_id (random (k1 - 1))
         \<and> (\<forall>j. k \<le> j \<and> j < k1 - 1 \<longrightarrow> random_id (random j) \<in> set used))
   \<and> (\<forall>i k1. pick_id random k (usedIds env) = Some (i, k1) \<longrightarrow>
         (\<exists>s e. TcpSocket_new random k env None = Some (s, e, k1) \<and> u_id s = i
            \<and> usedIds e = usedIds env @ [i]))
   \<and> ((\<forall>j. unit_double (random j)) \<and> {1..1000} \<subseteq> set (usedIds env) \<longrightarrow>
         pick_id random k (usedIds env) = None \<and> TcpSocket_new random k env None = None)"
proof (intro conjI)
  show "(\<exists>r. pick_id random k used = Some r) \<longleftrightarrow> (\<exists>j \<ge> k. random_id (random j) \<notin> set used)"
  proof
    assume "\<exists>r. pick_id random k used = Some r"
    then obtain r where r: "pick_id random k used = Some r" by blast
    from pick_id_sound [OF r]
    have "fst r \<notin> set used" "k < snd r" "fst r = random_id (random (snd r - 1))" by auto
    moreover from \<open>k < snd r\<close> have "k \<le> snd r - 1" by simp
    ultimately show "\<exists>j \<ge> k. random_id (random j) \<notin> set used" by metis
  next
    assume "\<exists>j \<ge> k. random_id (random j) \<notin> set used"
    then obtain j where j: "k \<le> j" "random_id (random j) \<notin> set used" by blast
    then have "random_id (random (k + (j - k))) \<notin> set used" by simp
    from pick_id_found [of random k "j - k" used, OF this]
    show "\<exists>r. pick_id random k used = Some r" by blast
  qed
  show "\<forall>i k1. pick_id random k used = Some (i, k1) \<longrightarrow>
         i \<notin> set used \<and> k < k1 \<and> i = random_id (random (k1 - 1))
         \<and> (\<forall>j. k \<le> j \<and> j < k1 - 1 \<longrightarrow> random_id (random j) \<in> set used)"
  proof (intro allI impI)
    fix i k1
    assume p: "pick_id random k used = Some (i, k1)"
    from pick_id_sound [OF p]
    have "i \<notin> set used \<and> k < k1 \<and> i = random_id (random (k1 - 1))" by auto
    with pick_id_first [OF p]
    show "i \<notin> set used \<and> k < k1 \<and> i = random_id (random (k1 - 1))
         \<and> (\<forall>j. k \<le> j \<and> j < k1 - 1 \<longrightarrow> random_id (random j) \<in> set used)"
      by blast
  qed
  show "\<forall>i k1. pick_id random k (usedIds env) = Some (i, k1) \<longrightarrow>
         (\<exists>s e. TcpSocket_new random k env None = Some (s, e, k1) \<and> u_id s = i
            \<and> usedIds e = usedIds env @ [i])"
    using new_from_pick [of random k env] by blast
  show "(\<forall>j. unit_double (random j)) \<and> {1..1000} \<subseteq> set (usedIds env) \<longrightarrow>
         pick_id random k (usedIds env) = None \<and> TcpSocket_new random k env None = None"
    by (simp add: pick_id_exhausted TcpSocket_new_def given_id_def)
qed

lemma always_half_unit: "\<forall>j. unit_double (always_half j)"
  by (simp add: always_half_def unit_double_half)

lemma exhausted_covers: "{1..1000} \<subseteq> set (usedIds exhausted_env)"
  by (simp add: exhausted_env_def initial_env_def)

lemma sample_draws:
  "random_id (always_half j) = 501"
  "random_id (half_half_quarter 0) = 501"
  "random_id (half_half_quarter 1) = 501"
  "random_id (half_half_quarter 2) = 251"
  by (simp_all add: always_half_def half_half_quarter_def random_id_half)

lemma pick_half_half_quarter:
  "pick_id half_half_quarter 0 [] = Some (501, 1)"
  "pick_id half_half_quarter 1 [501] = Some (251, 3)"
proof -
  show "pick_id half_half_quarter 0 [] = Some (501, 1)"
    by (subst pick_id.simps) (simp add: sample_draws)
  have "pick_id half_half_quarter 2 [501] = Some (251, 3)"
    by (subst pick_id.simps) (simp add: sample_draws)
  then have "pick_id half_half_quarter (Suc 1) [501] = Some (251, 3)"
    by (simp only: Suc_1)
  moreover have "random_id (half_half_quarter 1) \<in> set [501]"
    by (simp only: sample_draws) simp
  ultimately show "pick_id half_half_quarter 1 [501] = Some (251, 3)"
    by (subst pick_id.simps) (simp only: if_True)
qed

theorem allocation_returns_iff_witness:
  "(\<forall>j. unit_double (always_half j)) \<and> {1..1000} \<subseteq> set (usedIds exhausted_env)
   \<and> pick_id always_half 0 (usedIds exhausted_env) = None
   \<and> TcpSocket_new always_half 0 exhausted_env None = None
   \<and> pick_id half_half_quarter 1 [501] = Some (251, 3)
   \<and> 251 \<notin> set [501 :: int] \<and> (1::nat) < 3 \<and> 251 = random_id (half_half_quarter (3 - 1))
   \<and> random_id (half_half_quarter 1) \<in> set [501]"
proof -
  note t = allocation_returns_iff [of always_half 0 "[]" exhausted_env]
  note t2 = allocation_returns_iff [of half_half_quarter 1 "[501]" exhausted_env]
  have pre: "(\<forall>j. unit_double (always_half j)) \<and> {1..1000} \<subseteq> set (usedIds exhausted_env)"
    using always_half_unit exhausted_covers by blast
  have none: "pick_id always_half 0 (usedIds exhausted_env) = None
      \<and> TcpSocket_new always_half 0 exhausted_env None = None"
    by (rule t [THEN conjunct2, THEN conjunct2, THEN conjunct2, THEN mp, OF pre])
  note some = pick_half_half_quarter(2)
  have first: "251 \<notin> set [501 :: int] \<and> (1::nat) < 3 \<and> 251 = random_id (half_half_quarter (3 - 1))
      \<and> (\<forall>j. 1 \<le> j \<and> j < 3 - 1 \<longrightarrow> random_id (half_half_quarter j) \<in> set [501])"
    by (rule t2 [THEN conjunct2, THEN conjunct1, rule_format, OF some])
  have one: "(1::nat) \<le> 1 \<and> (1::nat) < 3 - 1" by simp
  have drawn: "random_id (half_half_quarter 1) \<in> set [501]"
    by (rule first [THEN conjunct2, THEN conjunct2, THEN conjunct2, rule_format, OF one])
  have out: "251 \<notin> set [501 :: int] \<and> (1::nat) < 3 \<and> 251 = random_id (half_half_quarter (3 - 1))"
    using first by blast
  show ?thesis
    using pre none some out drawn by blast
qed

text \<open>
  With every id from 1 to 1000 in use the constructor does not return, whatever
  \<open>Math.random()\<close> yields; here it yields one half every time.
\<close>

theorem allocation_exhausted_counterexample:
  "TcpSocket_new always_half 0 exhausted_env None = None"
proof -
  have "pick_id always_half 0 (usedIds exhausted_env) = None"
    by (rule pick_id_exhausted [OF always_half_unit exhausted_covers])
  then show ?thesis by (simp add: TcpSocket_new_def given_id_def)
qed

section \<open>Ids are never released\<close>

text \<open>
  Claim C8, as the code has it. Nothing removes an id from \<open>usedIds\<close>: no method, event,
  timer or acknowledgement changes the array, the constructor appends the new socket's id,
  and a client id is chosen outside the array. So the id of a socket stays in
  \<open>usedIds\<close> through \<open>end\<close> and \<open>destroy\<close>, and no later client socket gets it.
\<close>

theorem usedIds_only_grow:
  "usedIds (snd (destroy self env)) = usedIds env
   \<and> usedIds (snd (snd (socket_end h self env d enc))) = usedIds env
   \<and> usedIds (snd (run h acts (self, env))) = usedIds env
   \<and> (\<forall>s1 e1 k1. TcpSocket_new random k env options = Some (s1, e1, k1) \<longrightarrow>
         usedIds e1 = usedIds env @ [u_id s1]
         \<and> (given_id options = None \<longrightarrow> u_id s1 \<notin> set (usedIds env))
         \<and> (\<forall>acts1 random2 k2 s3 e3 k3.
               TcpSocket_new random2 k2 (snd (run h acts1 (s1, e1))) None = Some (s3, e3, k3) \<longrightarrow>
               u_id s1 \<in> set (usedIds (snd (run h acts1 (s1, e1)))) \<and> u_id s3 \<noteq> u_id s1))"
proof (intro conjI allI impI)
  show "usedIds (snd (destroy self env)) = usedIds env"
    using step_usedIds [of h Destroy self env] by simp
  show "usedIds (snd (snd (socket_end h self env d enc))) = usedIds env"
    using step_usedIds [of h "End d enc" self env] by simp
  show "usedIds (snd (run h acts (self, env))) = usedIds env"
    by (simp add: run_usedIds)
next
  fix s1 e1 k1
  assume n: "TcpSocket_new random k env options = Some (s1, e1, k1)"
  show u: "usedIds e1 = usedIds env @ [u_id s1]"
    by (rule new_usedIds(1) [OF n])
  show "u_id s1 \<notin> set (usedIds env)" if "given_id options = None"
    by (rule new_usedIds(2) [OF n that])
  fix acts1 random2 k2 s3 e3 k3
  assume m: "TcpSocket_new random2 k2 (snd (run h acts1 (s1, e1))) None = Some (s3, e3, k3)"
  have same: "usedIds (snd (run h acts1 (s1, e1))) = usedIds e1"
    by (simp add: run_usedIds)
  show in_use: "u_id s1 \<in> set (usedIds (snd (run h acts1 (s1, e1))))"
    by (simp add: same u)
  have "u_id s3 \<notin> set (usedIds (snd (run h acts1 (s1, e1))))"
    by (rule new_usedIds(2) [OF m]) (simp add: given_id_def)
  with in_use show "u_id s3 \<noteq> u_id s1" by metis
qed

lemma new_socket_501:
  "TcpSocket_new half_half_quarter 0 initial_env None =
     Some (fst (construct 501 False initial_env), snd (construct 501 False initial_env), 1)"
  by (simp add: TcpSocket_new_def given_id_def pick_half_half_quarter initial_env_def
        case_prod_beta)

lemma destroyed_501:
  "run sample_host [Destroy] (construct 501 False initial_env) =
     (fst (construct 501 False initial_env)\<lparr>u_destroyed := True\<rparr>,
      (snd (construct 501 False initial_env))
        \<lparr>subscriptions := [],
         calls := [DeviceEventEmitter_addListener 501, Sockets_createSocket 501,
                   Subscription_remove 0, Sockets_destroy 501]\<rparr>)"
  by (simp add: construct_def initial_env_def destroy_def)

lemma new_socket_251:
  "TcpSocket_new half_half_quarter 1
     (snd (run sample_host [Destroy] (construct 501 False initial_env))) None =
   Some (fst (construct 251 False (snd (run sample_host [Destroy] (construct 501 False initial_env)))),
         snd (construct 251 False (snd (run sample_host [Destroy] (construct 501 False initial_env)))),
         3)"
proof -
  have u: "usedIds (snd (run sample_host [Destroy] (construct 501 False initial_env))) = [501]"
    unfolding destroyed_501 by (simp add: construct_def initial_env_def)
  note p = pick_half_half_quarter(2)
  show ?thesis
    by (simp only: TcpSocket_new_def given_id_def u p option.case prod.case case_prod_beta fst_conv snd_conv)
qed

text \<open>
  A client socket gets the id 501 and is destroyed. The id is still in \<open>usedIds\<close>; the
  next client socket, for which \<open>Math.random()\<close> yields 501 again, is refused that id and
  gets 251.
\<close>

theorem released_id_counterexample:
  "TcpSocket_new half_half_quarter 0 initial_env None =
     Some (fst (construct 501 False initial_env), snd (construct 501 False initial_env), 1)
   \<and> u_id (fst (construct 501 False initial_env)) = 501
   \<and> u_destroyed (fst (run sample_host [Destroy] (construct 501 False initial_env)))
   \<and> subscriptions (snd (run sample_host [Destroy] (construct 501 False initial_env))) = []
   \<and> usedIds (snd (run sample_host [Destroy] (construct 501 False initial_env))) = [501]
   \<and> random_id (half_half_quarter 1) = 501
   \<and> TcpSocket_new half_half_quarter 1
        (snd (run sample_host [Destroy] (construct 501 False initial_env))) None =
       Some (fst (construct 251 False (snd (run sample_host [Destroy] (construct 501 False initial_env)))),
             snd (construct 251 False (snd (run sample_host [Destroy] (construct 501 False initial_env)))),
             3)
   \<and> u_id (fst (construct 251 False (snd (run sample_host [Destroy] (construct 501 False initial_env)))))
       = 251"
proof -
  have "u_id (fst (construct 251 False (snd (run sample_host [Destroy] (construct 501 False initial_env)))))
       = 251"
    by (simp add: construct_def)
  moreover have "random_id (half_half_quarter 1) = 501"
    by (rule sample_draws)
  moreover have "u_id (fst (construct 501 False initial_env)) = 501"
    by (simp add: construct_def)
  moreover have "u_destroyed (fst (run sample_host [Destroy] (construct 501 False initial_env)))"
    "subscriptions (snd (run sample_host [Destroy] (construct 501 False initial_env))) = []"
    "usedIds (snd (run sample_host [Destroy] (construct 501 False initial_env))) = [501]"
    unfolding destroyed_501 by (simp_all add: construct_def initial_env_def)
  ultimately show ?thesis using new_socket_501 new_socket_251 by blast
qed

theorem usedIds_only_grow_witness:
  "TcpSocket_new half_half_quarter 0 initial_env None =
     Some (fst (construct 501 False initial_env), snd (construct 501 False initial_env), 1)
   \<and> given_id None = None
   \<and> usedIds (snd (construct 501 False initial_env)) =
       usedIds initial_env @ [u_id (fst (construct 501 False initial_env))]
   \<and> u_id (fst (construct 501 False initial_env)) \<notin> set (usedIds initial_env)
   \<and> u_id (fst (construct 501 False initial_env))
       \<in> set (usedIds (snd (run sample_host [Destroy] (construct 501 False initial_env))))
   \<and> u_id (fst (construct 251 False (snd (run sample_host [Destroy] (construct 501 False initial_env)))))
       \<noteq> u_id (fst (construct 501 False initial_env))"
proof -
  note t = usedIds_only_grow
    [where random = half_half_quarter and k = 0 and env = initial_env and options = None
       and h = sample_host,
     THEN conjunct2, THEN conjunct2, THEN conjunct2, rule_format, OF new_socket_501]
  have g: "given_id None = None" by (simp add: given_id_def)
  have a: "usedIds (snd (construct 501 False initial_env)) =
       usedIds initial_env @ [u_id (fst (construct 501 False initial_env))]"
    by (rule t [THEN conjunct1])
  have b: "u_id (fst (construct 501 False initial_env)) \<notin> set (usedIds initial_env)"
    by (rule t [THEN conjunct2, THEN conjunct1, rule_format, OF g])
  note t3 = t [THEN conjunct2, THEN conjunct2, rule_format,
    where ?acts1.0 = "[Destroy]" and ?random2.0 = half_half_quarter and ?k2.0 = 1,
    unfolded prod.collapse, OF new_socket_251]
  have c: "u_id (fst (construct 501 False initial_env))
       \<in> set (usedIds (snd (run sample_host [Destroy] (construct 501 False initial_env))))"
    by (rule t3 [THEN conjunct1])
  have d: "u_id (fst (construct 251 False (snd (run sample_host [Destroy] (construct 501 False initial_env)))))
       \<noteq> u_id (fst (construct 501 False initial_env))"
    by (rule t3 [THEN conjunct2])
  show ?thesis
    by (rule conjI [OF new_socket_501 conjI [OF g conjI [OF a conjI [OF b conjI [OF c d]]]]])
qed

section \<open>readable and writable\<close>

lemma step_readable:
  "readable (fst (step h a (self, env))) =
     (readable self \<or> connect_delivery a \<and> u_subscription self \<in> set (subscriptions env))"
proof (cases a)
  case (Connect options callback)
  then show ?thesis by (simp add: op_simps split: jsvalue.splits)
next
  case (Write buffer callback)
  then show ?thesis by (simp add: op_simps split: option.splits)
next
  case (End data1 encoding)
  then show ?thesis by (simp add: op_simps split: option.splits)
next
  case Destroy
  then show ?thesis by (simp add: op_simps)
next
  case (SetTimeout msecs callback)
  then show ?thesis by (simp add: op_simps split: jsvalue.splits)
next
  case (Deliver info)
  then show ?thesis by (simp add: op_simps split: sum.splits)
next
  case (TimerExpires t)
  then show ?thesis by (simp add: op_simps)
next
  case (WriteAck cb err)
  then show ?thesis by (simp add: op_simps split: jsvalue.splits)
qed

lemma step_writable:
  "writable (fst (step h a (self, env))) =
     (writable self \<or> connect_delivery a \<and> u_subscription self \<in> set (subscriptions env))"
proof (cases a)
  case (Connect options callback)
  then show ?thesis by (simp add: op_simps split: jsvalue.splits)
next
  case (Write buffer callback)
  then show ?thesis by (simp add: op_simps split: option.splits)
next
  case (End data1 encoding)
  then show ?thesis by (simp add: op_simps split: option.splits)
next
  case Destroy
  then show ?thesis by (simp add: op_simps)
next
  case (SetTimeout msecs callback)
  then show ?thesis by (simp add: op_simps split: jsvalue.splits)
next
  case (Deliver info)
  then show ?thesis by (simp add: op_simps split: sum.splits)
next
  case (TimerExpires t)
  then show ?thesis by (simp add: op_simps)
next
  case (WriteAck cb err)
  then show ?thesis by (simp add: op_simps split: jsvalue.splits)
qed

lemma run_keeps_readable: "readable (fst c) \<Longrightarrow> readable (fst (run h acts c))"
proof (induction acts arbitrary: c)
  case Nil
  then show ?case by simp
next
  case (Cons a acts)
  obtain self env where c: "c = (self, env)" by (cases c)
  with Cons.prems have "readable (fst (step h a c))" by (simp add: step_readable)
  then show ?case using Cons.IH by simp
qed

lemma run_keeps_writable: "writable (fst c) \<Longrightarrow> writable (fst (run h acts c))"
proof (induction acts arbitrary: c)
  case Nil
  then show ?case by simp
next
  case (Cons a acts)
  obtain self env where c: "c = (self, env)" by (cases c)
  with Cons.prems have "writable (fst (step h a c))" by (simp add: step_writable)
  then show ?case using Cons.IH by simp
qed

lemma run_without_connect:
  "list_all (\<lambda>a. \<not> connect_delivery a) acts \<Longrightarrow>
   readable (fst (run h acts c)) = readable (fst c) \<and> writable (fst (run h acts c)) = writable (fst c)"
proof (induction acts arbitrary: c)
  case Nil
  then show ?case by simp
next
  case (Cons a acts)
  obtain self env where c: "c = (self, env)" by (cases c)
  from Cons.prems have a: "\<not> connect_delivery a" and rest: "list_all (\<lambda>a. \<not> connect_delivery a) acts"
    by simp_all
  from a have "readable (fst (step h a c)) = readable (fst c)"
    "writable (fst (step h a c)) = writable (fst c)"
    by (simp_all add: c step_readable step_writable)
  with Cons.IH [OF rest, of "step h a c"] show ?case by simp
qed

text \<open>
  Claim C9, as the code has it. A socket is constructed with \<open>readable\<close> and
  \<open>writable\<close> false. A step sets them exactly when it delivers a \<open>connect\<close> event to a
  socket whose subscription is held, and then it sets both. No step clears them: they stay
  false through every history without such an event, and once true they stay true through
  every history, \<open>end\<close>, \<open>destroy\<close> and \<open>close\<close> events included.
\<close>

theorem readable_writable_history:
  "(\<forall>s1 e1 k1. TcpSocket_new random k env options = Some (s1, e1, k1) \<longrightarrow>
       \<not> readable s1 \<and> \<not> writable s1)
   \<and> readable (fst (step h a (self, env))) =
       (readable self \<or> connect_delivery a \<and> u_subscription self \<in> set (subscriptions env))
   \<and> writable (fst (step h a (self, env))) =
       (writable self \<or> connect_delivery a \<and> u_subscription self \<in> set (subscriptions env))
   \<and> (list_all (\<lambda>a. \<not> connect_delivery a) acts \<longrightarrow>
        readable (fst (run h acts (self, env))) = readable self
        \<and> writable (fst (run h acts (self, env))) = writable self)
   \<and> (readable self \<longrightarrow> readable (fst (run h acts (self, env))))
   \<and> (writable self \<longrightarrow> writable (fst (run h acts (self, env))))"
proof (intro conjI allI impI)
  fix s1 e1 k1
  assume n: "TcpSocket_new random k env options = Some (s1, e1, k1)"
  then show "\<not> readable s1" and "\<not> writable s1"
    by (auto simp: TcpSocket_new_def construct_def split: option.splits prod.splits)
next
  show "readable (fst (step h a (self, env))) =
       (readable self \<or> connect_delivery a \<and> u_subscription self \<in> set (subscriptions env))"
    by (rule step_readable)
  show "writable (fst (step h a (self, env))) =
       (writable self \<or> connect_delivery a \<and> u_subscription self \<in> set (subscriptions env))"
    by (rule step_writable)
next
  assume "list_all (\<lambda>a. \<not> connect_delivery a) acts"
  from run_without_connect [OF this, of h "(self, env)"]
  show "readable (fst (run h acts (self, env))) = readable self"
    and "writable (fst (run h acts (self, env))) = writable self"
    by simp_all
next
  assume "readable self"
  then show "readable (fst (run h acts (self, env)))"
    using run_keeps_readable [of "(self, env)" h acts] by simp
next
  assume "writable self"
  then show "writable (fst (run h acts (self, env)))"
    using run_keeps_writable [of "(self, env)" h acts] by simp
qed

lemma connected7:
  "run sample_host [Connect (to_port (JNumber (Finite 80))) JUndefined, Deliver connect_event]
     (socket7, env7) =
   (socket7\<lparr>u_state := CONNECTED, readable := True, writable := True,
            u_address := JString ''10.0.0.1'', u_port := JNumber (Finite 80),
            u_family := JString ''IPv4''\<rparr>,
    env7\<lparr>calls := calls env7 @ [Sockets_connect 7 ''localhost'' 80],
         notifications := [Emitted ''connect'' [data connect_event]]\<rparr>)"
  by (simp add: op_simps sample_simps connect_event_def get_prop_def isLegalPort_def
        truncate_real_def ToInt32_def)

text \<open>
  A socket connects, is told that the connection is closed, and is destroyed; another is
  ended once connected. Both are still \<open>readable\<close> and \<open>writable\<close>.
\<close>

theorem flags_after_teardown_counterexample:
  "readable (fst (run sample_host
      [Connect (to_port (JNumber (Finite 80))) JUndefined, Deliver connect_event,
       Deliver close_event, Destroy] (socket7, env7)))
   \<and> writable (fst (run sample_host
      [Connect (to_port (JNumber (Finite 80))) JUndefined, Deliver connect_event,
       Deliver close_event, Destroy] (socket7, env7)))
   \<and> u_state (fst (run sample_host
      [Connect (to_port (JNumber (Finite 80))) JUndefined, Deliver connect_event,
       Deliver close_event, Destroy] (socket7, env7))) = DISCONNECTED
   \<and> u_destroyed (fst (run sample_host
      [Connect (to_port (JNumber (Finite 80))) JUndefined, Deliver connect_event,
       Deliver close_event, Destroy] (socket7, env7)))
   \<and> readable (fst (run sample_host
      [Connect (to_port (JNumber (Finite 80))) JUndefined, Deliver connect_event,
       End JUndefined JUndefined] (socket7, env7)))
   \<and> writable (fst (run sample_host
      [Connect (to_port (JNumber (Finite 80))) JUndefined, Deliver connect_event,
       End JUndefined JUndefined] (socket7, env7)))
   \<and> u_destroyed (fst (run sample_host
      [Connect (to_port (JNumber (Finite 80))) JUndefined, Deliver connect_event,
       End JUndefined JUndefined] (socket7, env7)))"
proof -
  have split1: "run sample_host
      [Connect (to_port (JNumber (Finite 80))) JUndefined, Deliver connect_event,
       Deliver close_event, Destroy] (socket7, env7) =
     run sample_host [Deliver close_event, Destroy]
       (run sample_host [Connect (to_port (JNumber (Finite 80))) JUndefined, Deliver connect_event]
          (socket7, env7))"
    and split2: "run sample_host
      [Connect (to_port (JNumber (Finite 80))) JUndefined, Deliver connect_event,
       End JUndefined JUndefined] (socket7, env7) =
     run sample_host [End JUndefined JUndefined]
       (run sample_host [Connect (to_port (JNumber (Finite 80))) JUndefined, Deliver connect_event]
          (socket7, env7))"
    by simp_all
  show ?thesis
    unfolding split1 split2 connected7
    by (simp add: op_simps sample_simps close_event_def)
qed

theorem readable_writable_history_witness:
  "TcpSocket_new half_half_quarter 0 initial_env None =
     Some (fst (construct 501 False initial_env), snd (construct 501 False initial_env), 1)
   \<and> \<not> readable (fst (construct 501 False initial_env))
   \<and> \<not> writable (fst (construct 501 False initial_env))
   \<and> list_all (\<lambda>a. \<not> connect_delivery a)
        [Connect (to_port (JNumber (Finite 80))) JUndefined, Deliver data_event, Destroy]
   \<and> \<not> readable (fst (run sample_host
         [Connect (to_port (JNumber (Finite 80))) JUndefined, Deliver data_event, Destroy]
         (socket7, env7)))
   \<and> readable (socket7\<lparr>readable := True\<rparr>)
   \<and> readable (fst (run sample_host [Deliver close_event, Destroy]
         (socket7\<lparr>readable := True\<rparr>, env7)))
   \<and> writable (socket7\<lparr>writable := True\<rparr>)
   \<and> writable (fst (run sample_host [Deliver close_event, Destroy]
         (socket7\<lparr>writable := True\<rparr>, env7)))"
proof -
  note t1 = readable_writable_history
    [where random = half_half_quarter and k = 0 and env = initial_env and options = None,
     THEN conjunct1, rule_format, OF new_socket_501]
  note t2 = readable_writable_history
    [where self = socket7 and env = env7 and h = sample_host
       and acts = "[Connect (to_port (JNumber (Finite 80))) JUndefined, Deliver data_event, Destroy]",
     THEN conjunct2, THEN conjunct2, THEN conjunct2, THEN conjunct1]
  note t3 = readable_writable_history
    [where self = "socket7\<lparr>readable := True\<rparr>" and env = env7 and h = sample_host
       and acts = "[Deliver close_event, Destroy]",
     THEN conjunct2, THEN conjunct2, THEN conjunct2, THEN conjunct2, THEN conjunct1]
  note t4 = readable_writable_history
    [where self = "socket7\<lparr>writable := True\<rparr>" and env = env7 and h = sample_host
       and acts = "[Deliver close_event, Destroy]",
     THEN conjunct2, THEN conjunct2, THEN conjunct2, THEN conjunct2, THEN conjunct2]
  have quiet: "list_all (\<lambda>a. \<not> connect_delivery a)
        [Connect (to_port (JNumber (Finite 80))) JUndefined, Deliver data_event, Destroy]"
    by (simp add: data_event_def)
  have r7: "\<not> readable socket7" by (simp add: sample_simps)
  have a: "\<not> readable (fst (run sample_host
         [Connect (to_port (JNumber (Finite 80))) JUndefined, Deliver data_event, Destroy]
         (socket7, env7)))"
    using t2 quiet r7 by blast
  have b: "readable (socket7\<lparr>readable := True\<rparr>)" and c: "writable (socket7\<lparr>writable := True\<rparr>)"
    by simp_all
  have b': "readable (fst (run sample_host [Deliver close_event, Destroy]
         (socket7\<lparr>readable := True\<rparr>, env7)))"
    using t3 b by blast
  have c': "writable (fst (run sample_host [Deliver close_event, Destroy]
         (socket7\<lparr>writable := True\<rparr>, env7)))"
    using t4 c by blast
  show ?thesis
    using new_socket_501 t1 quiet a b b' c c' by blast
qed

section \<open>The port option\<close>

lemma legal_number:
  "(strict_equals (Finite x) (Finite (real_of_int (ToUint32 (Finite x))))
    \<and> less_eq_num (Finite 0) (Finite x) \<and> less_eq_num (Finite x) (Finite 65535))
   \<longleftrightarrow> (\<exists>n::nat. n \<le> 65535 \<and> x = real n)"
proof
  assume l: "strict_equals (Finite x) (Finite (real_of_int (ToUint32 (Finite x))))
    \<and> less_eq_num (Finite 0) (Finite x) \<and> less_eq_num (Finite x) (Finite 65535)"
  then have x: "x = real_of_int (truncate_real x mod 2 ^ 32)" and lo: "0 \<le> x" and hi: "x \<le> 65535"
    by simp_all
  have "0 \<le> truncate_real x mod 2 ^ 32" by simp
  then obtain n where n: "truncate_real x mod 2 ^ 32 = int n"
    using nonneg_int_cases by blast
  with x have xn: "x = real n" by simp
  with hi have "n \<le> 65535" by simp
  with xn show "\<exists>n::nat. n \<le> 65535 \<and> x = real n" by blast
next
  assume "\<exists>n::nat. n \<le> 65535 \<and> x = real n"
  then obtain n :: nat where n: "n \<le> 65535" "x = real n" by blast
  then have "truncate_real x = int n" by (simp add: truncate_real_def)
  moreover from n have "int n mod 2 ^ 32 = int n" by simp
  ultimately show "strict_equals (Finite x) (Finite (real_of_int (ToUint32 (Finite x))))
    \<and> less_eq_num (Finite 0) (Finite x) \<and> less_eq_num (Finite x) (Finite 65535)"
    using n by simp
qed

lemma isLegalPort_iff:
  "isLegalPort h p \<longleftrightarrow>
     \<not> (\<exists>s. p = JString s \<and> trim s = [])
     \<and> (\<exists>n::nat. n \<le> 65535 \<and> ToNumber h p = Finite (real n))"
proof -
  have blank: "(typeof p = ''string'' \<and> (case p of JString s \<Rightarrow> trim s = [] | _ \<Rightarrow> False))
      = (\<exists>s. p = JString s \<and> trim s = [])"
    by (cases p) simp_all
  show ?thesis
  proof (cases "ToNumber h p")
    case (Finite x)
    then show ?thesis
      unfolding isLegalPort_def blank using legal_number [of x] by auto
  qed (simp_all add: isLegalPort_def)
qed

lemma string_numbers:
  "StringToNumber ''80'' = Finite 80"
  "StringToNumber ''abc'' = NaN"
  "StringToNumber '''' = Finite 0"
  "StringToNumber ''  '' = Finite 0"
  "trim '''' = []"
  "trim ''  '' = []"
  "trim ''80'' = ''80''"
  "trim ''abc'' = ''abc''"
  by (simp_all add: StringToNumber_def trim_def isStrWhiteSpaceChar_def unsigned_decimal_def
        split_at_def digit_of_def to_double_numeral)

lemma legal_examples:
  "isLegalPort h (JNumber (Finite 80))"
  "isLegalPort h (JString ''80'')"
  "\<not> isLegalPort h (JNumber (Finite 65536))"
  "\<not> isLegalPort h (JString ''abc'')"
  "\<not> isLegalPort h (JString '''')"
  "\<not> isLegalPort h (JString ''  '')"
proof -
  have "ToNumber h (JNumber (Finite 80)) = Finite (real (80::nat))"
    and "ToNumber h (JString ''80'') = Finite (real (80::nat))"
    by (simp_all add: string_numbers)
  then show "isLegalPort h (JNumber (Finite 80))" and "isLegalPort h (JString ''80'')"
    unfolding isLegalPort_iff by (simp_all add: string_numbers)
  show "\<not> isLegalPort h (JNumber (Finite 65536))"
    unfolding isLegalPort_iff by simp
  show "\<not> isLegalPort h (JString ''abc'')" "\<not> isLegalPort h (JString '''')"
    "\<not> isLegalPort h (JString ''  '')"
    unfolding isLegalPort_iff by (simp_all add: string_numbers)
qed

lemma rounded_literals:
  "round_double (65535 + 1 / 10 ^ 19) = 65535"
  "round_double (80 + 1 / 10 ^ 17) = 80"
  "round_double (1 / 10 ^ 400) = 0"
proof -
  have "round_double (65535 + 1 / 10 ^ 19) = of_int (65535 * 2 ^ 37) * 2 powr of_int (15 - 52)"
    by (rule round_double_binade) (simp_all add: powr_neg_numeral)
  then show "round_double (65535 + 1 / 10 ^ 19) = 65535" by (simp add: powr_neg_numeral)
  have "round_double (80 + 1 / 10 ^ 17) = of_int (80 * 2 ^ 46) * 2 powr of_int (6 - 52)"
    by (rule round_double_binade) (simp_all add: powr_neg_numeral)
  then show "round_double (80 + 1 / 10 ^ 17) = 80" by (simp add: powr_neg_numeral)
  have "(2::real) ^ 1075 < 10 ^ 400" by simp
  then have "1 / (10::real) ^ 400 < 1 / 2 ^ 1075"
    by (simp add: field_simps)
  then have "\<bar>1 / (10::real) ^ 400\<bar> < 2 powr (- 1075)"
    by (simp add: powr_neg_numeral)
  then show "round_double (1 / 10 ^ 400) = 0" by (rule round_double_tiny)
qed

lemma rounded_strings:
  "StringToNumber ''65535.0000000000000000001'' = Finite 65535"
  "StringToNumber ''80.00000000000000001'' = Finite 80"
  "StringToNumber ''1e-400'' = Finite 0"
proof -
  have "StringToNumber ''65535.0000000000000000001'' = to_double (65535 + 1 / 10 ^ 19)"
    by (simp add: StringToNumber_def trim_def isStrWhiteSpaceChar_def unsigned_decimal_def
          split_at_def digit_of_def)
  also have "\<dots> = Finite 65535" by (rule to_double_round [OF rounded_literals(1)]) simp
  finally show "StringToNumber ''65535.0000000000000000001'' = Finite 65535" .
  have "StringToNumber ''80.00000000000000001'' = to_double (80 + 1 / 10 ^ 17)"
    by (simp add: StringToNumber_def trim_def isStrWhiteSpaceChar_def unsigned_decimal_def
          split_at_def digit_of_def)
  also have "\<dots> = Finite 80" by (rule to_double_round [OF rounded_literals(2)]) simp
  finally show "StringToNumber ''80.00000000000000001'' = Finite 80" .
  have "StringToNumber ''1e-400'' = to_double (1 / 10 ^ 400)"
    by (simp add: StringToNumber_def trim_def isStrWhiteSpaceChar_def unsigned_decimal_def
          split_at_def digit_of_def exponent_value_def digits_def)
  also have "\<dots> = Finite 0" by (rule to_double_round [OF rounded_literals(3)]) simp
  finally show "StringToNumber ''1e-400'' = Finite 0" .
qed

lemma legal_rounded:
  "isLegalPort h (JString ''65535.0000000000000000001'')"
  "isLegalPort h (JString ''80.00000000000000001'')"
  "isLegalPort h (JString ''1e-400'')"
proof -
  have "ToNumber h (JString ''65535.0000000000000000001'') = Finite (real (65535::nat))"
    and "ToNumber h (JString ''80.00000000000000001'') = Finite (real (80::nat))"
    and "ToNumber h (JString ''1e-400'') = Finite (real (0::nat))"
    by (simp_all add: rounded_strings)
  then show "isLegalPort h (JString ''65535.0000000000000000001'')"
    "isLegalPort h (JString ''80.00000000000000001'')"
    "isLegalPort h (JString ''1e-400'')"
    unfolding isLegalPort_iff by (simp_all add: trim_def isStrWhiteSpaceChar_def)
qed

lemma connect_port_outcome:
  assumes "u_state self = DISCONNECTED"
    and "case localAddress options of None \<Rightarrow> True | Some a \<Rightarrow> a = [] \<or> ipRegex_exact_test h a"
    and "\<not> ToBoolean (localPort options) \<or> typeof (localPort options) = ''number''"
  shows "fst (connect h self env options callback) =
     (if typeof (port options) = ''undefined'' then Inr ()
      else if typeof (port options) \<noteq> ''number'' \<and> typeof (port options) \<noteq> ''string''
      then Inl (TypeError ''port option should be a number or string: '')
      else if \<not> isLegalPort h (port options)
      then Inl (RangeError ''port option should be >= 0 and < 65536: '')
      else Inr ())"
  using assms by (auto simp: connect_def Let_def split: option.splits)


lemma connect_port_command:
  assumes "fst (connect h self env options callback) = Inr ()"
  shows "\<exists>a. calls (snd (snd (connect h self env options callback))) =
           calls env @ [Sockets_connect (u_id self) a (ToInt32 (ToNumber h (port options)))]"
  using assms by (auto simp: connect_def Let_def once_def split: if_splits jsvalue.splits)

text \<open>
  Claim C1, as the code has it. Take a \<open>connect\<close> that reaches the test of the port: the
  socket is \<open>DISCONNECTED\<close>, \<open>localAddress\<close> is absent, empty or an IP address, and
  \<open>localPort\<close> is falsy or a number. If \<open>port\<close> is given and is neither a number nor a
  string, \<open>connect\<close> throws the TypeError of the port. If it is a number or a string,
  \<open>connect\<close> returns when the port is not a blank string and converts to an integer from
  0 to 65535, and throws the RangeError otherwise. So 65536, \<open>"abc"\<close>, the empty string and
  a string of spaces all get the RangeError, while 80 and \<open>"80"\<close> pass and the command
  carries the port 80. The conversion of a string rounds to a double:
  \<open>"65535.0000000000000000001"\<close> is the number 65535 and passes, the command carrying
  the port 65535.
\<close>

theorem port_validation:
  assumes "u_state self = DISCONNECTED"
    and "case localAddress options of None \<Rightarrow> True | Some a \<Rightarrow> a = [] \<or> ipRegex_exact_test h a"
    and "\<not> ToBoolean (localPort options) \<or> typeof (localPort options) = ''number''"
  shows
    "(typeof (port options) \<noteq> ''undefined'' \<and> typeof (port options) \<noteq> ''number''
        \<and> typeof (port options) \<noteq> ''string'' \<longrightarrow>
      fst (connect h self env options callback) =
        Inl (TypeError ''port option should be a number or string: ''))
     \<and> (typeof (port options) = ''number'' \<or> typeof (port options) = ''string'' \<longrightarrow>
      fst (connect h self env options callback) =
        (if \<not> (\<exists>s. port options = JString s \<and> trim s = [])
            \<and> (\<exists>n::nat. n \<le> 65535 \<and> ToNumber h (port options) = Finite (real n))
         then Inr ()
         else Inl (RangeError ''port option should be >= 0 and < 65536: '')))
     \<and> (port options = JNumber (Finite 65536) \<or> port options = JString ''abc''
          \<or> port options = JString '''' \<or> port options = JString ''  '' \<longrightarrow>
      fst (connect h self env options callback) =
        Inl (RangeError ''port option should be >= 0 and < 65536: ''))
     \<and> (port options = JNumber (Finite 80) \<or> port options = JString ''80'' \<longrightarrow>
      fst (connect h self env options callback) = Inr ()
      \<and> (\<exists>a. calls (snd (snd (connect h self env options callback))) =
                calls env @ [Sockets_connect (u_id self) a 80]))
     \<and> (port options = JString ''65535.0000000000000000001'' \<longrightarrow>
      fst (connect h self env options callback) = Inr ()
      \<and> (\<exists>a. calls (snd (snd (connect h self env options callback))) =
                calls env @ [Sockets_connect (u_id self) a 65535]))"
proof -
  note out = connect_port_outcome [OF assms, of env callback]
  have a: "typeof (port options) \<noteq> ''undefined'' \<and> typeof (port options) \<noteq> ''number''
        \<and> typeof (port options) \<noteq> ''string'' \<longrightarrow>
      fst (connect h self env options callback) =
        Inl (TypeError ''port option should be a number or string: '')"
    by (simp add: out)
  have b: "typeof (port options) = ''number'' \<or> typeof (port options) = ''string'' \<longrightarrow>
      fst (connect h self env options callback) =
        (if \<not> (\<exists>s. port options = JString s \<and> trim s = [])
            \<and> (\<exists>n::nat. n \<le> 65535 \<and> ToNumber h (port options) = Finite (real n))
         then Inr ()
         else Inl (RangeError ''port option should be >= 0 and < 65536: ''))"
    unfolding out isLegalPort_iff by auto
  have c: "port options = JNumber (Finite 65536) \<or> port options = JString ''abc''
          \<or> port options = JString '''' \<or> port options = JString ''  '' \<longrightarrow>
      fst (connect h self env options callback) =
        Inl (RangeError ''port option should be >= 0 and < 65536: '')"
    unfolding out using legal_examples by auto
  have d: "port options = JNumber (Finite 80) \<or> port options = JString ''80'' \<longrightarrow>
      fst (connect h self env options callback) = Inr ()
      \<and> (\<exists>a. calls (snd (snd (connect h self env options callback))) =
                calls env @ [Sockets_connect (u_id self) a 80])"
  proof
    assume p: "port options = JNumber (Finite 80) \<or> port options = JString ''80''"
    then have ok: "fst (connect h self env options callback) = Inr ()"
      unfolding out using legal_examples by auto
    from p have "ToInt32 (ToNumber h (port options)) = 80"
      by (auto simp: string_numbers ToInt32_def truncate_real_def)
    with connect_port_command [OF ok] ok
    show "fst (connect h self env options callback) = Inr ()
      \<and> (\<exists>a. calls (snd (snd (connect h self env options callback))) =
                calls env @ [Sockets_connect (u_id self) a 80])"
      by simp
  qed
  have e: "port options = JString ''65535.0000000000000000001'' \<longrightarrow>
      fst (connect h self env options callback) = Inr ()
      \<and> (\<exists>a. calls (snd (snd (connect h self env options callback))) =
                calls env @ [Sockets_connect (u_id self) a 65535])"
  proof
    assume p: "port options = JString ''65535.0000000000000000001''"
    then have ok: "fst (connect h self env options callback) = Inr ()"
      unfolding out using legal_rounded(1) [of h] by simp
    from p have "ToInt32 (ToNumber h (port options)) = 65535"
      by (simp add: rounded_strings ToInt32_def truncate_real_def)
    with connect_port_command [OF ok] ok
    show "fst (connect h self env options callback) = Inr ()
      \<and> (\<exists>a. calls (snd (snd (connect h self env options callback))) =
                calls env @ [Sockets_connect (u_id self) a 65535])"
      by simp
  qed
  show ?thesis by (rule conjI [OF a conjI [OF b conjI [OF c conjI [OF d e]]]])
qed

text \<open>
  \<open>connect\<close> with the port \<open>"abc"\<close> on a new client socket: the exception is the
  RangeError, not the TypeError.
\<close>

theorem port_abc_counterexample:
  "typeof (JString ''abc'') = ''string''
   \<and> connect sample_host socket7 env7 (to_port (JString ''abc'')) JUndefined =
       (Inl (RangeError ''port option should be >= 0 and < 65536: ''), socket7, env7)"
  using legal_examples(4) by (simp add: connect_def Let_def to_port_def socket7_def construct_def)

theorem port_validation_witness:
  "u_state socket7 = DISCONNECTED
   \<and> localAddress (to_port JNull) = None
   \<and> \<not> ToBoolean (localPort (to_port JNull))
   \<and> fst (connect sample_host socket7 env7 (to_port JNull) JUndefined) =
        Inl (TypeError ''port option should be a number or string: '')
   \<and> fst (connect sample_host socket7 env7 (to_port (JNumber (Finite 65536))) JUndefined) =
        Inl (RangeError ''port option should be >= 0 and < 65536: '')
   \<and> fst (connect sample_host socket7 env7 (to_port (JString ''  '')) JUndefined) =
        Inl (RangeError ''port option should be >= 0 and < 65536: '')
   \<and> fst (connect sample_host socket7 env7 (to_port (JNumber (Finite 80))) JUndefined) = Inr ()
   \<and> fst (connect sample_host socket7 env7 (to_port (JString ''80'')) JUndefined) = Inr ()
   \<and> fst (connect sample_host socket7 env7
             (to_port (JString ''65535.0000000000000000001'')) JUndefined) = Inr ()"
proof -
  have st: "u_state socket7 = DISCONNECTED"
    by (simp add: sample_simps)
  have la: "localAddress (to_port p) = None" and lp: "\<not> ToBoolean (localPort (to_port p))"
    and pp: "port (to_port p) = p" for p
    by (simp_all add: to_port_def)
  have la': "case localAddress (to_port p) of None \<Rightarrow> True
             | Some a \<Rightarrow> a = [] \<or> ipRegex_exact_test sample_host a" for p
    by (simp add: la)
  have lp': "\<not> ToBoolean (localPort (to_port p)) \<or> typeof (localPort (to_port p)) = ''number''" for p
    by (simp add: lp)
  have a: "fst (connect sample_host socket7 env7 (to_port JNull) JUndefined) =
        Inl (TypeError ''port option should be a number or string: '')"
    using port_validation [OF st la' lp', of JNull env7 JUndefined, THEN conjunct1]
    by (simp add: pp)
  have b: "fst (connect sample_host socket7 env7 (to_port (JNumber (Finite 65536))) JUndefined) =
        Inl (RangeError ''port option should be >= 0 and < 65536: '')"
    using port_validation [OF st la' lp', of "JNumber (Finite 65536)" env7 JUndefined,
        THEN conjunct2, THEN conjunct2, THEN conjunct1]
    by (simp add: pp)
  have c: "fst (connect sample_host socket7 env7 (to_port (JString ''  '')) JUndefined) =
        Inl (RangeError ''port option should be >= 0 and < 65536: '')"
    using port_validation [OF st la' lp', of "JString ''  ''" env7 JUndefined,
        THEN conjunct2, THEN conjunct2, THEN conjunct1]
    by (simp add: pp)
  have d: "fst (connect sample_host socket7 env7 (to_port (JNumber (Finite 80))) JUndefined) = Inr ()"
    using port_validation [OF st la' lp', of "JNumber (Finite 80)" env7 JUndefined,
        THEN conjunct2, THEN conjunct2, THEN conjunct2, THEN conjunct1]
    by (simp add: pp)
  have e: "fst (connect sample_host socket7 env7 (to_port (JString ''80'')) JUndefined) = Inr ()"
    using port_validation [OF st la' lp', of "JString ''80''" env7 JUndefined,
        THEN conjunct2, THEN conjunct2, THEN conjunct2, THEN conjunct1]
    by (simp add: pp)
  have f: "fst (connect sample_host socket7 env7
             (to_port (JString ''65535.0000000000000000001'')) JUndefined) = Inr ()"
    using port_validation [OF st la' lp', of "JString ''65535.0000000000000000001''" env7 JUndefined,
        THEN conjunct2, THEN conjunct2, THEN conjunct2, THEN conjunct2]
    by (simp add: pp)
  show ?thesis
    by (rule conjI [OF st conjI [OF la conjI [OF lp conjI [OF a conjI [OF b conjI [OF c
          conjI [OF d conjI [OF e f]]]]]]]])
qed

section \<open>end\<close>

lemma end_on_destroyed:
  "u_destroyed self \<Longrightarrow> socket_end h self env d enc = (Inr (), self, env)"
  by (simp add: socket_end_def)

lemma end_without_data:
  assumes "\<not> u_destroyed self" and "\<not> ToBoolean d"
  shows "socket_end h self env d enc =
     (Inr (), self\<lparr>u_destroyed := True\<rparr>,
      env\<lparr>subscriptions := removeAll (u_subscription self) (subscriptions env),
          calls := calls env @ [Subscription_remove (u_subscription self), Sockets_end (u_id self)]\<rparr>)"
  using assms by (simp add: socket_end_def)

lemma end_write_throws:
  assumes "\<not> u_destroyed self" and "ToBoolean d"
    and "socket_write h self env d enc = (Inl e, self1, env1)"
  shows "socket_end h self env d enc = (Inl e, self, env)"
  using assms by (auto simp: socket_end_def socket_write_def Let_def split: if_splits option.splits)

lemma end_write_accepted:
  assumes "\<not> u_destroyed self" and "ToBoolean d"
    and "socket_write h self env d enc = (Inr r, self1, env1)"
  shows "socket_end h self env d enc =
     (Inr (), self\<lparr>u_destroyed := True\<rparr>,
      env\<lparr>subscriptions := removeAll (u_subscription self) (subscriptions env),
          calls := calls env @
            [Sockets_write (u_id self) (the (encode h d))
               (if ToBoolean enc then enc else JFunction noop),
             Subscription_remove (u_subscription self), Sockets_end (u_id self)]\<rparr>)"
  using assms by (auto simp: socket_end_def socket_write_def Let_def split: if_splits option.splits)

text \<open>
  Claim C7, as the code has it. On a socket marked destroyed \<open>end\<close> does nothing. On
  one that is not: with data that is falsy (none, or the empty string) it marks the socket
  destroyed, removes the subscription and adds exactly \<open>remove\<close> and one \<open>Sockets.end\<close>
  to the calls. With truthy data it first calls \<open>write\<close> on the data. If that
  \<open>write\<close> throws (the socket is \<open>DISCONNECTED\<close>, or the data is not a payload),
  \<open>end\<close> throws the same exception and nothing has changed: the socket is not marked,
  the subscription is held, no command is issued. If it returns, the calls gain the
  \<open>Sockets.write\<close> of the encoded data, then \<open>remove\<close> and one \<open>Sockets.end\<close>, and
  the socket is marked destroyed with the subscription removed.
\<close>

theorem end_outcomes:
  "(u_destroyed self \<longrightarrow> socket_end h self env d enc = (Inr (), self, env))
   \<and> (\<not> u_destroyed self \<and> \<not> ToBoolean d \<longrightarrow>
        socket_end h self env d enc =
          (Inr (), self\<lparr>u_destroyed := True\<rparr>,
           env\<lparr>subscriptions := removeAll (u_subscription self) (subscriptions env),
               calls := calls env @
                 [Subscription_remove (u_subscription self), Sockets_end (u_id self)]\<rparr>))
   \<and> (\<forall>e self1 env1. \<not> u_destroyed self \<and> ToBoolean d
          \<and> socket_write h self env d enc = (Inl e, self1, env1) \<longrightarrow>
        socket_end h self env d enc = (Inl e, self, env))
   \<and> (\<forall>r self1 env1. \<not> u_destroyed self \<and> ToBoolean d
          \<and> socket_write h self env d enc = (Inr r, self1, env1) \<longrightarrow>
        (\<exists>str cb. encode h d = Some str
           \<and> socket_end h self env d enc =
              (Inr (), self\<lparr>u_destroyed := True\<rparr>,
               env\<lparr>subscriptions := removeAll (u_subscription self) (subscriptions env),
                   calls := calls env @
                     [Sockets_write (u_id self) str cb,
                      Subscription_remove (u_subscription self), Sockets_end (u_id self)]\<rparr>)))
   \<and> (\<not> u_destroyed self \<and> ToBoolean d \<and> u_state self = DISCONNECTED \<longrightarrow>
        socket_end h self env d enc = (Inl (Error ''Socket is not connected.''), self, env))"
proof (intro conjI allI impI)
  assume "u_destroyed self"
  then show "socket_end h self env d enc = (Inr (), self, env)"
    by (rule end_on_destroyed)
next
  assume "\<not> u_destroyed self \<and> \<not> ToBoolean d"
  then show "socket_end h self env d enc =
          (Inr (), self\<lparr>u_destroyed := True\<rparr>,
           env\<lparr>subscriptions := removeAll (u_subscription self) (subscriptions env),
               calls := calls env @
                 [Subscription_remove (u_subscription self), Sockets_end (u_id self)]\<rparr>)"
    by (simp add: end_without_data)
next
  fix e self1 env1
  assume "\<not> u_destroyed self \<and> ToBoolean d
          \<and> socket_write h self env d enc = (Inl e, self1, env1)"
  then show "socket_end h self env d enc = (Inl e, self, env)"
    using end_write_throws by blast
next
  fix r self1 env1
  assume a: "\<not> u_destroyed self \<and> ToBoolean d
          \<and> socket_write h self env d enc = (Inr r, self1, env1)"
  then obtain str where s: "encode h d = Some str"
    by (auto simp: socket_write_def Let_def split: if_splits option.splits)
  from a have "socket_end h self env d enc =
     (Inr (), self\<lparr>u_destroyed := True\<rparr>,
      env\<lparr>subscriptions := removeAll (u_subscription self) (subscriptions env),
          calls := calls env @
            [Sockets_write (u_id self) (the (encode h d))
               (if ToBoolean enc then enc else JFunction noop),
             Subscription_remove (u_subscription self), Sockets_end (u_id self)]\<rparr>)"
    using end_write_accepted by blast
  with s show "\<exists>str cb. encode h d = Some str
           \<and> socket_end h self env d enc =
              (Inr (), self\<lparr>u_destroyed := True\<rparr>,
               env\<lparr>subscriptions := removeAll (u_subscription self) (subscriptions env),
                   calls := calls env @
                     [Sockets_write (u_id self) str cb,
                      Subscription_remove (u_subscription self), Sockets_end (u_id self)]\<rparr>)"
    by auto
next
  assume "\<not> u_destroyed self \<and> ToBoolean d \<and> u_state self = DISCONNECTED"
  then show "socket_end h self env d enc = (Inl (Error ''Socket is not connected.''), self, env)"
    by (simp add: socket_end_def socket_write_def)
qed

text \<open>
  \<open>end('hi')\<close> on a new client socket, which is \<open>DISCONNECTED\<close> and not destroyed:
  the \<open>write\<close> throws, and the socket is left unmarked with no \<open>Sockets.end\<close> issued.
\<close>

theorem end_with_data_counterexample:
  "\<not> u_destroyed socket7 \<and> ToBoolean (JString ''hi'')
   \<and> socket_end sample_host socket7 env7 (JString ''hi'') JUndefined =
       (Inl (Error ''Socket is not connected.''), socket7, env7)
   \<and> \<not> u_destroyed (fst (snd (socket_end sample_host socket7 env7 (JString ''hi'') JUndefined)))
   \<and> calls (snd (snd (socket_end sample_host socket7 env7 (JString ''hi'') JUndefined))) =
       [DeviceEventEmitter_addListener 7, Sockets_createSocket 7]"
  by (simp add: socket_end_def socket_write_def sample_simps)

theorem end_outcomes_witness:
  "u_destroyed (socket7\<lparr>u_destroyed := True\<rparr>)
   \<and> socket_end sample_host (socket7\<lparr>u_destroyed := True\<rparr>) env7 (JString ''hi'') JUndefined =
       (Inr (), socket7\<lparr>u_destroyed := True\<rparr>, env7)
   \<and> \<not> u_destroyed socket7 \<and> \<not> ToBoolean (JString '''')
   \<and> socket_end sample_host socket7 env7 (JString '''') JUndefined =
       (Inr (), socket7\<lparr>u_destroyed := True\<rparr>,
        env7\<lparr>subscriptions := [], calls := calls env7 @ [Subscription_remove 0, Sockets_end 7]\<rparr>)
   \<and> ToBoolean (JString ''hi'') \<and> u_state socket7 = DISCONNECTED
   \<and> socket_end sample_host socket7 env7 (JString ''hi'') JUndefined =
       (Inl (Error ''Socket is not connected.''), socket7, env7)
   \<and> \<not> u_destroyed (socket7\<lparr>u_state := CONNECTED\<rparr>)
   \<and> socket_write sample_host (socket7\<lparr>u_state := CONNECTED\<rparr>) env7 (JString ''hi'') JUndefined =
       (Inr True, socket7\<lparr>u_state := CONNECTED\<rparr>,
        env7\<lparr>calls := calls env7 @ [Sockets_write 7 ''aGk='' (JFunction noop)]\<rparr>)
   \<and> fst (socket_end sample_host (socket7\<lparr>u_state := CONNECTED\<rparr>) env7 (JString ''hi'') JUndefined)
       = Inr ()
   \<and> fst (snd (socket_end sample_host (socket7\<lparr>u_state := CONNECTED\<rparr>) env7 (JString ''hi'')
         JUndefined)) = socket7\<lparr>u_state := CONNECTED, u_destroyed := True\<rparr>
   \<and> subscriptions (snd (snd (socket_end sample_host (socket7\<lparr>u_state := CONNECTED\<rparr>) env7
         (JString ''hi'') JUndefined))) = []
   \<and> length (calls (snd (snd (socket_end sample_host (socket7\<lparr>u_state := CONNECTED\<rparr>) env7
         (JString ''hi'') JUndefined)))) = length (calls env7) + 3
   \<and> drop (length (calls env7) + 1)
        (calls (snd (snd (socket_end sample_host (socket7\<lparr>u_state := CONNECTED\<rparr>) env7
           (JString ''hi'') JUndefined)))) = [Subscription_remove 0, Sockets_end 7]"
proof -
  have f7: "u_id socket7 = 7" "u_subscription socket7 = 0" "\<not> u_destroyed socket7"
    "u_state socket7 = DISCONNECTED" "subscriptions env7 = [0]"
    by (simp_all add: sample_simps)
  have hi: "encode sample_host (JString ''hi'') = Some ''aGk=''"
    by (simp add: encode_def sample_host_def base64_chars_def)
  have w: "socket_write sample_host (socket7\<lparr>u_state := CONNECTED\<rparr>) env7 (JString ''hi'') JUndefined =
       (Inr True, socket7\<lparr>u_state := CONNECTED\<rparr>,
        env7\<lparr>calls := calls env7 @ [Sockets_write 7 ''aGk='' (JFunction noop)]\<rparr>)"
    by (simp add: socket_write_def hi f7)
  have a: "socket_end sample_host (socket7\<lparr>u_destroyed := True\<rparr>) env7 (JString ''hi'') JUndefined =
       (Inr (), socket7\<lparr>u_destroyed := True\<rparr>, env7)"
    using end_outcomes [of "socket7\<lparr>u_destroyed := True\<rparr>" sample_host env7 "JString ''hi''" JUndefined,
        THEN conjunct1]
    by simp
  have b: "socket_end sample_host socket7 env7 (JString '''') JUndefined =
       (Inr (), socket7\<lparr>u_destroyed := True\<rparr>,
        env7\<lparr>subscriptions := [], calls := calls env7 @ [Subscription_remove 0, Sockets_end 7]\<rparr>)"
    using end_outcomes [of socket7 sample_host env7 "JString ''''" JUndefined,
        THEN conjunct2, THEN conjunct1]
    by (simp add: f7)
  have c: "socket_end sample_host socket7 env7 (JString ''hi'') JUndefined =
       (Inl (Error ''Socket is not connected.''), socket7, env7)"
    using end_outcomes [of socket7 sample_host env7 "JString ''hi''" JUndefined,
        THEN conjunct2, THEN conjunct2, THEN conjunct2, THEN conjunct2]
    by (simp add: f7)
  have pre: "\<not> u_destroyed (socket7\<lparr>u_state := CONNECTED\<rparr>) \<and> ToBoolean (JString ''hi'')
      \<and> socket_write sample_host (socket7\<lparr>u_state := CONNECTED\<rparr>) env7 (JString ''hi'') JUndefined =
       (Inr True, socket7\<lparr>u_state := CONNECTED\<rparr>,
        env7\<lparr>calls := calls env7 @ [Sockets_write 7 ''aGk='' (JFunction noop)]\<rparr>)"
    using w f7 by simp
  from end_outcomes [of "socket7\<lparr>u_state := CONNECTED\<rparr>" sample_host env7 "JString ''hi''" JUndefined,
        THEN conjunct2, THEN conjunct2, THEN conjunct2, THEN conjunct1, rule_format, OF pre]
  obtain str cb where d: "socket_end sample_host (socket7\<lparr>u_state := CONNECTED\<rparr>) env7
         (JString ''hi'') JUndefined =
       (Inr (), socket7\<lparr>u_state := CONNECTED, u_destroyed := True\<rparr>,
        env7\<lparr>subscriptions := [],
             calls := calls env7 @
               [Sockets_write 7 str cb, Subscription_remove 0, Sockets_end 7]\<rparr>)"
    by (auto simp: f7)
  show ?thesis using a b c w f7 by (simp add: d)
qed

section \<open>The idle timer\<close>












end
